theory Spec2Isabelle
  imports Complex_Main
begin

section \<open>Values of the front-end\<close>

text \<open>
  The billing front-end is TypeScript over a hosted relational store.  A JavaScript
  number is an IEEE 754 double; it is modelled by the rational that it denotes
  (\<^typ>\<open>rat\<close>), and the arithmetic of the billing page rounds every result to the nearest
  double, as the runtime does (see the numbers below).  A number that the page reads, a
  price of the store or the discount typed into the form, is given by its decimal text.
  Quantities are integers (the column is \<open>INTEGER\<close>, and the cart only ever adds or
  subtracts whole steps).  A string is a list of characters, one per UTF-16 code unit of
  the JavaScript string, so that \<^const>\<open>length\<close> is \<open>.length\<close>.  Row identifiers are UUID
  strings in the source; they are opaque and never empty, and are modelled as natural
  numbers.
\<close>

type_synonym uuid = nat
type_synonym time = int

subsection \<open>String helpers of the JavaScript runtime\<close>

definition nl :: string where
  "nl = [CHR 0x0A]"

definition digit_char :: "nat \<Rightarrow> char" where
  "digit_char d = ''0123456789'' ! d"

fun digits :: "nat \<Rightarrow> string" where
  "digits n = (if n < 10 then [digit_char n] else digits (n div 10) @ [digit_char (n mod 10)])"

declare digits.simps [simp del]

text \<open>\<open>Number.prototype.toString\<close> on an integer value.\<close>

definition int_toString :: "int \<Rightarrow> string" where
  "int_toString i = (if i < 0 then ''-'' @ digits (nat (- i)) else digits (nat i))"

text \<open>\<open>String.prototype.padStart(n)\<close>, \<open>padEnd(n)\<close> and \<open>' '.repeat(n)\<close>.\<close>

definition padStart :: "nat \<Rightarrow> string \<Rightarrow> string" where
  "padStart n s = replicate (n - length s) CHR '' '' @ s"

definition padEnd :: "nat \<Rightarrow> string \<Rightarrow> string" where
  "padEnd n s = s @ replicate (n - length s) CHR '' ''"

definition repeat_str :: "char \<Rightarrow> int \<Rightarrow> string" where
  "repeat_str c n = replicate (nat n) c"

text \<open>
  \<open>Number.prototype.toFixed(2)\<close>: the sign is split off, \<open>n\<close> is the integer nearest
  to \<open>100 * |x|\<close> (the larger one on a tie), its digits are left-padded with zeros to
  three characters and the point is placed before the last two.  (From \<open>10^21\<close> on
  JavaScript switches to exponent notation; amounts of the store's
  \<open>DECIMAL(10, 2)\<close> columns stay below \<open>10^8\<close>.)
\<close>

definition toFixed2 :: "rat \<Rightarrow> string" where
  "toFixed2 x =
     (let s = (if x < 0 then ''-'' else '''');
          n = nat \<lfloor>\<bar>x\<bar> * 100 + 1 / 2\<rfloor>;
          m = digits n;
          k = length m;
          m' = (if k \<le> 2 then replicate (3 - k) CHR ''0'' @ m else m);
          k' = (if k \<le> 2 then 3 else k)
      in s @ take (k' - 2) m' @ ''.'' @ drop (k' - 2) m')"

text \<open>\<open>Number(x.toFixed(2))\<close>: the amount rounded to two decimals, read back as a number.\<close>

definition round2 :: "rat \<Rightarrow> rat" where
  "round2 x = (if x < 0 then - 1 else 1) * of_int \<lfloor>\<bar>x\<bar> * 100 + 1 / 2\<rfloor> / 100"

subsection \<open>Numbers of the JavaScript runtime\<close>

text \<open>
  The number of digits of a positive integer in base \<open>b\<close>, and \<open>b\<close> to an integer power.
\<close>

function digit_count :: "int \<Rightarrow> int \<Rightarrow> int" where
  "digit_count b n = (if n \<le> 0 \<or> b \<le> 1 then 0 else 1 + digit_count b (n div b))"
  by auto

termination
  by (relation "measure (\<lambda>(b, n). nat n)") (auto intro: int_div_less_self)

declare digit_count.simps [simp del]

definition scale_by :: "rat \<Rightarrow> int \<Rightarrow> rat" where
  "scale_by b k = (if 0 \<le> k then b ^ nat k else 1 / b ^ nat (- k))"

text \<open>
  The exponent of a non-zero number in base 2 and in base 10: the integer \<open>e\<close> with
  \<open>b ^ e \<le> |x| < b ^ (e + 1)\<close>.  The digit counts of numerator and denominator give it
  up to one step.
\<close>

definition binary_exponent :: "rat \<Rightarrow> int" where
  "binary_exponent x =
     (let (p, q) = quotient_of \<bar>x\<bar>;
          k = digit_count 2 p - digit_count 2 q
      in if scale_by 2 k \<le> \<bar>x\<bar> then k else k - 1)"

definition decimal_exponent :: "rat \<Rightarrow> int" where
  "decimal_exponent x =
     (let (p, q) = quotient_of \<bar>x\<bar>;
          k = digit_count 10 p - digit_count 10 q
      in if scale_by 10 k \<le> \<bar>x\<bar> then k else k - 1)"

definition round_half_even :: "rat \<Rightarrow> int" where
  "round_half_even x =
     (let f = \<lfloor>x\<rfloor>; r = x - of_int f
      in if r < 1 / 2 then f else if 1 / 2 < r then f + 1 else if even f then f else f + 1)"

text \<open>
  The double nearest to a number (round to nearest, ties to even): a multiple of the unit
  in the last place of its binade, 52 binary places below the leading one, and
  \<open>2 ^ -1074\<close> for the subnormal numbers.  From \<open>2 ^ 1024\<close> on JavaScript has no finite
  double (it writes \<open>Infinity\<close>); the amounts of the store's \<open>DECIMAL(10, 2)\<close> columns
  are far below that.
\<close>

definition double :: "rat \<Rightarrow> rat" where
  "double x =
     (if x = 0 then 0
      else let e = max (binary_exponent x) (- 1022);
               ulp = scale_by 2 (e - 52)
           in of_int (round_half_even (x / ulp)) * ulp)"

definition is_double :: "rat \<Rightarrow> bool" where
  "is_double x \<longleftrightarrow> double x = x"

text \<open>
  The operators \<open>+\<close>, \<open>-\<close>, \<open>*\<close> and \<open>/\<close> on numbers: the operands are doubles, and the
  result is the double nearest to the exact one.  (The page divides by 100 only.)
\<close>

definition num_add :: "rat \<Rightarrow> rat \<Rightarrow> rat" where
  "num_add a b = double (double a + double b)"

definition num_sub :: "rat \<Rightarrow> rat \<Rightarrow> rat" where
  "num_sub a b = double (double a - double b)"

definition num_mul :: "rat \<Rightarrow> rat \<Rightarrow> rat" where
  "num_mul a b = double (double a * double b)"

definition num_div :: "rat \<Rightarrow> rat \<Rightarrow> rat" where
  "num_div a b = double (double a / double b)"

text \<open>
  The decimal that \<open>JSON.stringify\<close> writes for a number, and that the store reads: the
  one with the fewest significant digits that denotes the same double
  (\<open>Number::toString\<close>).  With \<open>k\<close> digits the candidates are the two neighbours of the
  number at that precision; of two that fit, the nearer one is taken, and the even one on
  a tie.  Seventeen digits always suffice.
\<close>

definition shortest_at :: "rat \<Rightarrow> int \<Rightarrow> rat option" where
  "shortest_at x k =
     (let unit = scale_by 10 (decimal_exponent x - k + 1);
          s = \<lfloor>x / unit\<rfloor>;
          a = of_int s * unit;
          b = of_int (s + 1) * unit
      in if double a = x \<and> double b = x
         then Some (if x - a < b - x \<or> (x - a = b - x \<and> even s) then a else b)
         else if double a = x then Some a
         else if double b = x then Some b
         else None)"

fun shortest_from :: "nat \<Rightarrow> int \<Rightarrow> rat \<Rightarrow> rat" where
  "shortest_from 0 k x = x"
| "shortest_from (Suc n) k x =
     (case shortest_at x k of Some y \<Rightarrow> y | None \<Rightarrow> shortest_from n (k + 1) x)"

definition json_number :: "rat \<Rightarrow> rat" where
  "json_number x =
     (let d = double x
      in if d = 0 then 0
         else if d < 0 then - shortest_from 17 1 (- d)
         else shortest_from 17 1 d)"

subsection \<open>Menu, cart and settings\<close>

record menu_item =
  m_id :: uuid
  m_name :: string
  m_price :: rat
  m_category :: string

record cart_item =
  c_id :: uuid
  c_name :: string
  c_price :: rat
  c_quantity :: int
  c_category :: string

record shop_settings =
  tax_percentage :: rat
  shop_name :: string
  shop_phone :: "string option"

subsection \<open>Rows of the store\<close>

text \<open>
  The columns of \<open>bills\<close> and \<open>bill_items\<close> as the migration declares them.  The part
  of a row that the front-end writes (\<open>billData\<close>, the mapped cart lines) is the parent
  record; the store adds the generated columns.
\<close>

datatype status = Draft | Saved | Printed

record bill_data =
  subtotal :: rat
  tax_amount :: rat
  b_discount :: rat
  b_total :: rat
  payment_method :: "string option"
  status :: status

record bill_row = bill_data +
  b_id :: uuid
  bill_number :: int
  date :: time
  created_at :: time

record bill_item_data =
  bill_id :: uuid
  item_name_snapshot :: string
  price_snapshot :: rat
  quantity :: int
  line_total :: rat

record bill_item_row = bill_item_data +
  bi_id :: uuid

section \<open>Cart mutations\<close>

text \<open>
  \<open>addToCart\<close>, \<open>updateQuantity\<close> and \<open>removeItem\<close> replace the cart of the billing
  session; here they are functions from the old cart to the new one.
\<close>

definition addToCart :: "menu_item \<Rightarrow> cart_item list \<Rightarrow> cart_item list" where
  "addToCart item cart =
     (case find (\<lambda>c. c_id c = m_id item) cart of
        Some existing \<Rightarrow>
          map (\<lambda>c. if c_id c = m_id item then c\<lparr>c_quantity := c_quantity c + 1\<rparr> else c) cart
      | None \<Rightarrow>
          cart @ [\<lparr>c_id = m_id item, c_name = m_name item, c_price = m_price item,
                   c_quantity = 1, c_category = m_category item\<rparr>])"

definition updateQuantity :: "uuid \<Rightarrow> int \<Rightarrow> cart_item list \<Rightarrow> cart_item list" where
  "updateQuantity ident change cart =
     filter (\<lambda>item. c_quantity item > 0)
       (map (\<lambda>item. if c_id item = ident
                      then item\<lparr>c_quantity := max 0 (c_quantity item + change)\<rparr>
                      else item) cart)"

definition removeItem :: "uuid \<Rightarrow> cart_item list \<Rightarrow> cart_item list" where
  "removeItem ident cart = filter (\<lambda>item. c_id item \<noteq> ident) cart"

text \<open>The invariant of the cart: one line per item id, every quantity at least one.\<close>

definition cart_ok :: "cart_item list \<Rightarrow> bool" where
  "cart_ok cart \<longleftrightarrow> distinct (map c_id cart) \<and> list_all (\<lambda>c. 1 \<le> c_quantity c) cart"

section \<open>Totals calculator\<close>

text \<open>
  \<open>calculateTotals\<close> reads the cart, the tax percentage of the settings and the discount,
  and returns \<open>{subtotal, taxAmount, total}\<close>, here a triple in that order.  Every
  operator is the one of the runtime, in the order in which the source applies them:
  \<open>sum + item.price * item.quantity\<close> from 0 along the cart,
  \<open>(subtotal * tax_percentage) / 100\<close> and \<open>subtotal + taxAmount - discount\<close>.
\<close>

definition calculateTotals :: "cart_item list \<Rightarrow> rat \<Rightarrow> rat \<Rightarrow> rat \<times> rat \<times> rat" where
  "calculateTotals cart tax discount =
     (let subtotal = foldl (\<lambda>sum item.
                              num_add sum (num_mul (c_price item) (of_int (c_quantity item))))
                           0 cart;
          taxAmount = num_div (num_mul subtotal tax) 100;
          total = num_sub (num_add subtotal taxAmount) discount
      in (subtotal, taxAmount, total))"

section \<open>Receipt formatter\<close>

text \<open>
  \<open>center\<close> and \<open>line\<close> are the helpers of \<open>printBill\<close>; the billing page and the
  previous-bills page carry the same text of both.  The width defaults to 32 columns.
\<close>

definition center :: "string \<Rightarrow> int \<Rightarrow> string" where
  "center text width =
     (let padding = max 0 ((width - int (length text)) div 2)
      in repeat_str CHR '' '' padding @ text)"

definition line :: "string \<Rightarrow> string \<Rightarrow> int \<Rightarrow> string" where
  "line left right width =
     (let space = width - int (length left) - int (length right)
      in left @ repeat_str CHR '' '' (max 1 space) @ right)"

definition divider :: string where
  "divider = repeat_str CHR ''-'' 32"

text \<open>
  The body of the \<open>forEach\<close> over the bill's items: the four columns of an item line,
  and the line appended to the receipt.
\<close>

definition item_name_col :: "'a bill_item_data_scheme \<Rightarrow> string" where
  "item_name_col item =
     (if length (item_name_snapshot item) > 16
      then take 13 (item_name_snapshot item) @ ''...''
      else padEnd 16 (item_name_snapshot item))"

definition item_qty_col :: "'a bill_item_data_scheme \<Rightarrow> string" where
  "item_qty_col item = padStart 3 (int_toString (quantity item))"

definition item_price_col :: "'a bill_item_data_scheme \<Rightarrow> string" where
  "item_price_col item = padStart 5 (toFixed2 (price_snapshot item))"

definition item_total_col :: "'a bill_item_data_scheme \<Rightarrow> string" where
  "item_total_col item = padStart 6 (toFixed2 (line_total item))"

definition item_line :: "'a bill_item_data_scheme \<Rightarrow> string" where
  "item_line item =
     item_name_col item @ '' '' @ item_qty_col item @ '' '' @ item_price_col item @ '' '' @
     item_total_col item @ nl"

text \<open>
  What the claims about the layout say of a column, as executable predicates:
  \<open>right_justified w s f\<close> holds when the field \<open>f\<close> is the text \<open>s\<close> preceded by
  spaces only, \<open>w\<close> characters wide (wider only when \<open>s\<close> itself is);
  \<open>two_decimals t\<close> holds when \<open>t\<close> ends in a digit, a point and two digits.
\<close>

definition is_digit :: "char \<Rightarrow> bool" where
  "is_digit c \<longleftrightarrow> c \<in> set ''0123456789''"

definition right_justified :: "nat \<Rightarrow> string \<Rightarrow> string \<Rightarrow> bool" where
  "right_justified w s f \<longleftrightarrow>
     length f = max w (length s) \<and> f = replicate (length f - length s) CHR '' '' @ s"

definition two_decimals :: "string \<Rightarrow> bool" where
  "two_decimals t \<longleftrightarrow>
     4 \<le> length t \<and> is_digit (t ! (length t - 4)) \<and> t ! (length t - 3) = CHR ''.'' \<and>
     is_digit (t ! (length t - 2)) \<and> is_digit (t ! (length t - 1))"

text \<open>The number that a text of decimal digits denotes.\<close>

definition digit_val :: "char \<Rightarrow> nat" where
  "digit_val c = of_char c - 48"

definition dec_value :: "string \<Rightarrow> nat" where
  "dec_value s = foldl (\<lambda>a c. 10 * a + digit_val c) 0 s"

text \<open>A split of \<open>toFixed2\<close> used in the proofs: the zero-padded digits before the point is set.\<close>

definition fixed_digits :: "rat \<Rightarrow> string" where
  "fixed_digits x =
     (let m = digits (nat \<lfloor>\<bar>x\<bar> * 100 + 1 / 2\<rfloor>)
      in if length m \<le> 2 then replicate (3 - length m) CHR ''0'' @ m else m)"

section \<open>The hosted store and the browser\<close>

text \<open>
  Everything outside the React state of a page is the \<open>world\<close>: the two tables the
  bill life cycle touches, the log of requests sent to the store, the network (request
  number \<open>n\<close> is lost when \<open>faults n\<close> holds; nothing is changed by a lost request), the
  clock of the store, and what the browser supplies (pop-up windows, the formatting of
  dates and of numbers in template strings).

  The store applies its schema to every write: \<open>DECIMAL(10, 2)\<close> columns round to two
  decimals and reject amounts of more than eight integer digits, \<open>quantity\<close> is an
  \<open>INTEGER\<close> with \<open>CHECK (quantity > 0)\<close>, \<open>bill_id\<close> references \<open>bills(id)\<close> with
  \<open>ON DELETE CASCADE\<close>, \<open>id\<close> defaults to \<open>gen_random_uuid()\<close> (here: a value that
  occurs nowhere in the store), \<open>bill_number\<close> is a \<open>SERIAL\<close> and \<open>date\<close>,
  \<open>created_at\<close> default to \<open>now()\<close>.
\<close>

datatype verb = Select | Insert | Update | Delete

datatype table = Bills | BillItems

datatype call = Call verb table "uuid option"

datatype store_error = NetworkError | NumericOverflow | CheckViolation | ForeignKeyViolation

record world =
  bills :: "bill_row list"
  bill_items :: "bill_item_row list"
  bill_number_seq :: int
  calls :: "call list"
  faults :: "nat \<Rightarrow> bool"
  clock :: "nat \<Rightarrow> time"
  start_of_day :: "time \<Rightarrow> time"
  popup_blocked :: bool
  windows :: "string list"
  fmt_date :: "time \<Rightarrow> string"
  fmt_day :: "time \<Rightarrow> string"
  show_number :: "rat \<Rightarrow> string"

definition request :: "call \<Rightarrow> world \<Rightarrow> bool \<times> world" where
  "request c w = (\<not> faults w (length (calls w)), w\<lparr>calls := calls w @ [c]\<rparr>)"

definition now :: "world \<Rightarrow> time" where
  "now w = clock w (length (calls w))"

definition round_half_away :: "rat \<Rightarrow> int" where
  "round_half_away x = (if x < 0 then - \<lfloor>- x + 1 / 2\<rfloor> else \<lfloor>x + 1 / 2\<rfloor>)"

definition decimal_10_2 :: "rat \<Rightarrow> rat option" where
  "decimal_10_2 x =
     (let n = round_half_away (x * 100)
      in if \<bar>n\<bar> < 10 ^ 10 then Some (of_int n / 100) else None)"

definition coerce_bill_data :: "bill_data \<Rightarrow> bill_data option" where
  "coerce_bill_data d =
     (case (decimal_10_2 (subtotal d), decimal_10_2 (tax_amount d),
            decimal_10_2 (b_discount d), decimal_10_2 (b_total d)) of
        (Some s, Some t, Some dc, Some tt) \<Rightarrow>
          Some (d\<lparr>subtotal := s, tax_amount := t, b_discount := dc, b_total := tt\<rparr>)
      | _ \<Rightarrow> None)"

definition check_item :: "world \<Rightarrow> bill_item_data \<Rightarrow> store_error + bill_item_data" where
  "check_item w d =
     (case (decimal_10_2 (price_snapshot d), decimal_10_2 (line_total d)) of
        (Some p, Some t) \<Rightarrow>
          if quantity d < - 2147483648 \<or> 2147483647 < quantity d then Inl NumericOverflow
          else if quantity d \<le> 0 then Inl CheckViolation
          else if bill_id d \<notin> set (map b_id (bills w)) then Inl ForeignKeyViolation
          else Inr (d\<lparr>price_snapshot := p, line_total := t\<rparr>)
      | _ \<Rightarrow> Inl NumericOverflow)"

fun check_items :: "world \<Rightarrow> bill_item_data list \<Rightarrow> store_error + bill_item_data list" where
  "check_items w [] = Inr []"
| "check_items w (d # ds) =
     (case check_item w d of
        Inl e \<Rightarrow> Inl e
      | Inr d' \<Rightarrow> (case check_items w ds of Inl e \<Rightarrow> Inl e | Inr ds' \<Rightarrow> Inr (d' # ds')))"

definition gen_random_uuid :: "world \<Rightarrow> uuid" where
  "gen_random_uuid w =
     Suc (foldr max (map b_id (bills w) @ map bi_id (bill_items w) @ map bill_id (bill_items w)) 0)"

definition stored_item :: "world \<Rightarrow> bill_item_data \<Rightarrow> bill_item_row" where
  "stored_item w d =
     \<lparr>bill_id = bill_id d, item_name_snapshot = item_name_snapshot d,
      price_snapshot = price_snapshot d, quantity = quantity d,
      line_total = line_total d, bi_id = gen_random_uuid w\<rparr>"

fun add_items :: "bill_item_data list \<Rightarrow> world \<Rightarrow> world" where
  "add_items [] w = w"
| "add_items (d # ds) w = add_items ds (w\<lparr>bill_items := bill_items w @ [stored_item w d]\<rparr>)"

subsection \<open>The requests the pages send\<close>

text \<open>\<open>from("bills").insert(billData).select().single()\<close>\<close>

definition insert_bill :: "bill_data \<Rightarrow> world \<Rightarrow> (store_error + bill_row) \<times> world" where
  "insert_bill d w =
     (let (delivered, w1) = request (Call Insert Bills None) w
      in if \<not> delivered then (Inl NetworkError, w1)
         else case coerce_bill_data d of
                None \<Rightarrow> (Inl NumericOverflow, w1)
              | Some d' \<Rightarrow>
                  let row = \<lparr>subtotal = subtotal d', tax_amount = tax_amount d',
                             b_discount = b_discount d', b_total = b_total d',
                             payment_method = payment_method d', status = status d',
                             b_id = gen_random_uuid w1, bill_number = bill_number_seq w1,
                             date = now w1, created_at = now w1\<rparr>
                  in (Inr row, w1\<lparr>bills := bills w1 @ [row],
                                   bill_number_seq := bill_number_seq w1 + 1\<rparr>))"

text \<open>\<open>from("bills").update(billData).eq("id", id)\<close>: every row with that id is rewritten.\<close>

definition write_bill :: "bill_data \<Rightarrow> uuid \<Rightarrow> bill_row \<Rightarrow> bill_row" where
  "write_bill d' ident r =
     (if b_id r = ident
      then r\<lparr>subtotal := subtotal d', tax_amount := tax_amount d',
             b_discount := b_discount d', b_total := b_total d',
             payment_method := payment_method d', status := status d'\<rparr>
      else r)"

definition update_bill :: "bill_data \<Rightarrow> uuid \<Rightarrow> world \<Rightarrow> (store_error + unit) \<times> world" where
  "update_bill d ident w =
     (let (delivered, w1) = request (Call Update Bills (Some ident)) w
      in if \<not> delivered then (Inl NetworkError, w1)
         else case coerce_bill_data d of
                None \<Rightarrow> (Inl NumericOverflow, w1)
              | Some d' \<Rightarrow> (Inr (), w1\<lparr>bills := map (write_bill d' ident) (bills w1)\<rparr>))"

text \<open>\<open>from("bills").delete().eq("id", id)\<close>; the items of the bill go with it.\<close>

definition delete_bill :: "uuid \<Rightarrow> world \<Rightarrow> (store_error + unit) \<times> world" where
  "delete_bill ident w =
     (let (delivered, w1) = request (Call Delete Bills (Some ident)) w
      in if \<not> delivered then (Inl NetworkError, w1)
         else (Inr (),
               w1\<lparr>bills := filter (\<lambda>r. b_id r \<noteq> ident) (bills w1),
                   bill_items := filter (\<lambda>i. bill_id i \<noteq> ident) (bill_items w1)\<rparr>))"

text \<open>\<open>from("bill_items").delete().eq("bill_id", id)\<close>\<close>

definition delete_bill_items :: "uuid \<Rightarrow> world \<Rightarrow> (store_error + unit) \<times> world" where
  "delete_bill_items ident w =
     (let (delivered, w1) = request (Call Delete BillItems (Some ident)) w
      in if \<not> delivered then (Inl NetworkError, w1)
         else (Inr (), w1\<lparr>bill_items := filter (\<lambda>i. bill_id i \<noteq> ident) (bill_items w1)\<rparr>))"

text \<open>\<open>from("bill_items").insert(items)\<close>: one statement, all rows or none.\<close>

definition insert_bill_items :: "bill_item_data list \<Rightarrow> world \<Rightarrow> (store_error + unit) \<times> world" where
  "insert_bill_items items w =
     (let (delivered, w1) = request (Call Insert BillItems None) w
      in if \<not> delivered then (Inl NetworkError, w1)
         else case check_items w1 items of
                Inl e \<Rightarrow> (Inl e, w1)
              | Inr items' \<Rightarrow> (Inr (), add_items items' w1))"

text \<open>\<open>from("bill_items").select("*").eq("bill_id", id)\<close>: \<open>data\<close> is \<open>null\<close> on an error.\<close>

definition select_bill_items :: "uuid \<Rightarrow> world \<Rightarrow> bill_item_row list option \<times> world" where
  "select_bill_items ident w =
     (let (delivered, w1) = request (Call Select BillItems (Some ident)) w
      in if \<not> delivered then (None, w1)
         else (Some (filter (\<lambda>i. bill_id i = ident) (bill_items w1)), w1))"

text \<open>\<open>from("bills").select("*").eq("id", id).single()\<close>: exactly one row, or \<open>null\<close>.\<close>

definition select_bill :: "uuid \<Rightarrow> world \<Rightarrow> bill_row option \<times> world" where
  "select_bill ident w =
     (let (delivered, w1) = request (Call Select Bills (Some ident)) w
      in if \<not> delivered then (None, w1)
         else case filter (\<lambda>r. b_id r = ident) (bills w1) of
                [row] \<Rightarrow> (Some row, w1)
              | _ \<Rightarrow> (None, w1))"

text \<open>\<open>from("bills").select(...)\<close> with row filters; the caller orders the rows.\<close>

definition select_bills :: "(bill_row \<Rightarrow> bool) \<Rightarrow> world \<Rightarrow> bill_row list option \<times> world" where
  "select_bills keep w =
     (let (delivered, w1) = request (Call Select Bills None) w
      in if \<not> delivered then (None, w1) else (Some (filter keep (bills w1)), w1))"

section \<open>The billing page\<close>

datatype variant = Default | Destructive

datatype detail = NoDetail | Text string | Message store_error

record toast =
  title :: string
  description :: detail
  variant :: variant

text \<open>The React state of the billing page, and the notifications it has raised.\<close>

record billing =
  cart :: "cart_item list"
  settings :: shop_settings
  discount :: rat
  paymentMethod :: string
  currentBillId :: "uuid option"
  savedBills :: "bill_row list"
  todayRevenue :: rat
  toasts :: "toast list"

definition notify :: "toast \<Rightarrow> billing \<Rightarrow> billing" where
  "notify t s = s\<lparr>toasts := toasts s @ [t]\<rparr>"

definition clearCart :: "billing \<Rightarrow> billing" where
  "clearCart s = s\<lparr>cart := [], discount := 0, paymentMethod := '''', currentBillId := None\<rparr>"

text \<open>
  \<open>fetchSavedBills\<close> lists the drafts, newest first; \<open>fetchTodayRevenue\<close> sums the totals
  of today's bills that are not drafts (\<open>data?.reduce(...) || 0\<close>).
\<close>

definition fetchSavedBills :: "world \<Rightarrow> billing \<Rightarrow> world \<times> billing" where
  "fetchSavedBills w s =
     (let (data, w1) = select_bills (\<lambda>b. status b = Draft) w
      in (w1, s\<lparr>savedBills :=
                  (case data of None \<Rightarrow> []
                   | Some rows \<Rightarrow> sort_key (\<lambda>b. - created_at b) rows)\<rparr>))"

definition fetchTodayRevenue :: "world \<Rightarrow> billing \<Rightarrow> world \<times> billing" where
  "fetchTodayRevenue w s =
     (let today = start_of_day w (now w);
          (data, w1) = select_bills (\<lambda>b. status b \<noteq> Draft \<and> today \<le> date b) w;
          revenue = (case data of None \<Rightarrow> 0
                     | Some rows \<Rightarrow> foldl (\<lambda>sum bill. num_add sum (b_total bill)) 0 rows)
      in (w1, s\<lparr>todayRevenue := revenue\<rparr>))"

subsection \<open>Printing\<close>

text \<open>
  The receipt that \<open>printBill\<close> assembles; the page written to the print window wraps
  this text in a fixed HTML frame, and \<open>windows\<close> records the text.
\<close>

definition receipt_text :: "world \<Rightarrow> shop_settings \<Rightarrow> bill_row \<Rightarrow> bill_item_row list \<Rightarrow> string" where
  "receipt_text w st bill items =
     (let formattedDate = fmt_date w (date bill);
          r0 = center (shop_name st) 32 @ nl;
          r1 = (case shop_phone st of
                  None \<Rightarrow> r0
                | Some ph \<Rightarrow> if ph = '''' then r0 else r0 @ center (''Ph: '' @ ph) 32 @ nl);
          r2 = r1 @ divider @ nl @ ''Bill #: '' @ int_toString (bill_number bill) @ nl @
               ''Date: '' @ formattedDate @ nl;
          r3 = (case payment_method bill of
                  None \<Rightarrow> r2
                | Some pm \<Rightarrow> if pm = '''' then r2 else r2 @ ''Payment: '' @ pm @ nl);
          r4 = r3 @ divider @ nl @ ''Item             Qty Price Total'' @ nl @ divider @ nl;
          r5 = foldl (\<lambda>receipt item. receipt @ item_line item) r4 items;
          r6 = r5 @ divider @ nl @
               line ''Subtotal:'' (''Rs.'' @ toFixed2 (subtotal bill)) 32 @ nl @
               line (''Tax ('' @ show_number w (tax_percentage st) @ ''%):'')
                    (''Rs.'' @ toFixed2 (tax_amount bill)) 32 @ nl;
          r7 = (if b_discount bill > 0
                then r6 @ line ''Discount:'' (''Rs.'' @ toFixed2 (b_discount bill)) 32 @ nl
                else r6)
      in r7 @ divider @ nl @ line ''TOTAL:'' (''Rs.'' @ toFixed2 (b_total bill)) 32 @ nl @
         divider @ nl @ center ''Thank you!'' 32 @ nl @ center ''Visit again!'' 32 @ nl @ nl @ nl)"

definition printBill :: "uuid \<Rightarrow> shop_settings \<Rightarrow> world \<Rightarrow> world" where
  "printBill billId st w =
     (let (bill, w1) = select_bill billId w;
          (items, w2) = select_bill_items billId w1
      in case (bill, items) of
           (Some b, Some its) \<Rightarrow>
             if popup_blocked w2 then w2
             else w2\<lparr>windows := windows w2 @ [receipt_text w2 st b its]\<rparr>
         | _ \<Rightarrow> w2)"

subsection \<open>Saving and loading a bill\<close>

text \<open>
  \<open>saveBill\<close> returns nothing in the source; the model also returns which of its exits
  was taken.  The reads it starts without awaiting them (\<open>printBill\<close>,
  \<open>fetchSavedBills\<close>, \<open>fetchTodayRevenue\<close>) change no table and are run here one after
  the other.
\<close>

datatype save_outcome =
    EmptyCart
  | UpdateFailed store_error
  | CreateFailed store_error
  | ItemsFailed store_error
  | BillSaved uuid

text \<open>
  The rows \<open>items\<close> that \<open>saveBill\<close> maps the cart to, for a known \<open>billId\<close>.  The
  rows are written as the request carries them: the line total is a computed number, of
  which the body holds the JSON decimal.
\<close>

definition items_of_cart :: "uuid \<Rightarrow> cart_item list \<Rightarrow> bill_item_data list" where
  "items_of_cart billId crt =
     map (\<lambda>item. \<lparr>bill_id = billId, item_name_snapshot = c_name item,
                    price_snapshot = c_price item, quantity = c_quantity item,
                    line_total =
                      json_number (num_mul (c_price item) (of_int (c_quantity item)))\<rparr>) crt"

text \<open>The tail of \<open>saveBill\<close>, from \<open>// Insert bill items\<close> on, with \<open>billId\<close> known.\<close>

definition save_items :: "bool \<Rightarrow> uuid \<Rightarrow> world \<Rightarrow> billing \<Rightarrow> save_outcome \<times> world \<times> billing" where
  "save_items printAfter billId w s =
     (let items = items_of_cart billId (cart s);
          (res, w1) = insert_bill_items items w
      in case res of
           Inl itemsError \<Rightarrow>
             (ItemsFailed itemsError, w1,
              notify \<lparr>title = ''Error saving items'', description = Message itemsError,
                      variant = Destructive\<rparr> s)
         | Inr _ \<Rightarrow>
             let s1 = notify \<lparr>title = (if printAfter then ''Bill saved & printed!''
                                        else ''Bill saved!''),
                              description = Text ''Successfully saved.'',
                              variant = Default\<rparr> s;
                 w2 = (if printAfter then printBill billId (settings s1) w1 else w1);
                 s2 = clearCart s1;
                 (w3, s3) = fetchSavedBills w2 s2;
                 (w4, s4) = fetchTodayRevenue w3 s3
             in (BillSaved billId, w4, s4))"

text \<open>
  The \<open>billData\<close> object that \<open>saveBill\<close> builds from the session, as the request
  carries it: the three computed totals are written as their JSON decimals, the discount
  is the number of the form field.
\<close>

definition billData :: "bool \<Rightarrow> billing \<Rightarrow> bill_data" where
  "billData printAfter s =
     (let (subtotal', taxAmount, total') =
            calculateTotals (cart s) (tax_percentage (settings s)) (discount s)
      in \<lparr>subtotal = json_number subtotal', tax_amount = json_number taxAmount,
          b_discount = discount s, b_total = json_number total',
          payment_method = (if paymentMethod s = '''' then None else Some (paymentMethod s)),
          status = (if printAfter then Printed else Draft)\<rparr>)"

definition saveBill :: "bool \<Rightarrow> world \<Rightarrow> billing \<Rightarrow> save_outcome \<times> world \<times> billing" where
  "saveBill printAfter w s =
     (if length (cart s) = 0
      then (EmptyCart, w,
            notify \<lparr>title = ''Cart is empty'', description = NoDetail, variant = Destructive\<rparr> s)
      else
        case currentBillId s of
          Some current \<Rightarrow>
            (case update_bill (billData printAfter s) current w of
               (Inl billError, w1) \<Rightarrow>
                 (UpdateFailed billError, w1,
                  notify \<lparr>title = ''Error updating bill'', description = Message billError,
                          variant = Destructive\<rparr> s)
             | (Inr _, w1) \<Rightarrow>
                 let (_, w2) = delete_bill_items current w1
                 in save_items printAfter current w2 s)
        | None \<Rightarrow>
            (case insert_bill (billData printAfter s) w of
               (Inl billError, w1) \<Rightarrow>
                 (CreateFailed billError, w1,
                  notify \<lparr>title = ''Error creating bill'', description = Message billError,
                          variant = Destructive\<rparr> s)
             | (Inr bill, w1) \<Rightarrow> save_items printAfter (b_id bill) w1 s))"

text \<open>
  \<open>loadBill\<close>: the cart is rebuilt from the item snapshots as soon as their select
  answers, one line per snapshot with the placeholder category; discount, payment method
  and the bound id follow only when the bill row (\<open>billData\<close> in the source, \<open>found\<close>
  here) is there.  \<open>billData.payment_method || ""\<close> turns \<open>null\<close> into the empty string.
\<close>

definition line_of_row :: "bill_item_row \<Rightarrow> cart_item" where
  "line_of_row item =
     \<lparr>c_id = bi_id item, c_name = item_name_snapshot item, c_price = price_snapshot item,
      c_quantity = quantity item, c_category = ''Uncategorized''\<rparr>"

definition loadBill :: "uuid \<Rightarrow> world \<Rightarrow> billing \<Rightarrow> world \<times> billing" where
  "loadBill billId w s =
     (let (billItems, w1) = select_bill_items billId w
      in case billItems of
           None \<Rightarrow> (w1, s)
         | Some rows \<Rightarrow>
             let (found, w2) = select_bill billId w1;
                 s1 = s\<lparr>cart := map line_of_row rows\<rparr>
             in case found of
                  None \<Rightarrow> (w2, s1)
                | Some b \<Rightarrow>
                    (w2, s1\<lparr>discount := b_discount b,
                           paymentMethod := (case payment_method b of None \<Rightarrow> '''' | Some m \<Rightarrow> m),
                           currentBillId := Some billId\<rparr>))"

section \<open>The previous-bills page\<close>

record previous_bills =
  pb_bills :: "bill_row list"
  billToDelete :: "bill_row option"
  deleteDialogOpen :: bool
  pb_toasts :: "toast list"

definition fetchBills :: "world \<Rightarrow> previous_bills \<Rightarrow> world \<times> previous_bills" where
  "fetchBills w p =
     (let (data, w1) = select_bills (\<lambda>b. status b \<noteq> Draft) w
      in case data of
           None \<Rightarrow>
             (w1, p\<lparr>pb_toasts := pb_toasts p @
                      [\<lparr>title = ''Error'', description = Message NetworkError,
                        variant = Destructive\<rparr>]\<rparr>)
         | Some rows \<Rightarrow> (w1, p\<lparr>pb_bills := sort_key (\<lambda>b. - date b) rows\<rparr>))"

datatype delete_outcome = NothingToDelete | DeleteFailed store_error | BillDeleted

definition deleteBill :: "world \<Rightarrow> previous_bills \<Rightarrow> delete_outcome \<times> world \<times> previous_bills" where
  "deleteBill w p =
     (case billToDelete p of
        None \<Rightarrow> (NothingToDelete, w, p)
      | Some b \<Rightarrow>
          let (_, w1) = delete_bill_items (b_id b) w;
              (res, w2) = delete_bill (b_id b) w1;
              (out, w3, p1) =
                (case res of
                   Inl error \<Rightarrow>
                     (DeleteFailed error, w2,
                      p\<lparr>pb_toasts := pb_toasts p @
                           [\<lparr>title = ''Error'', description = Message error,
                             variant = Destructive\<rparr>]\<rparr>)
                 | Inr _ \<Rightarrow>
                     let p0 = p\<lparr>pb_toasts := pb_toasts p @
                                 [\<lparr>title = ''Bill deleted'',
                                   description = Text (''Bill #'' @ int_toString (bill_number b) @
                                                       '' has been deleted.''),
                                   variant = Default\<rparr>]\<rparr>;
                         (w', p') = fetchBills w2 p0
                     in (BillDeleted, w', p'))
          in (out, w3, p1\<lparr>deleteDialogOpen := False, billToDelete := None\<rparr>))"

section \<open>Revenue reports\<close>

text \<open>
  The average is the one place where the page divides by a value that can be zero, so
  its result has the shape of a JavaScript number: finite, \<open>NaN\<close> or an infinity.  The
  sums and the quotient of this page are written without the rounding to doubles: what
  is shown of them below is their value on an empty range and the guard of the division.
\<close>

datatype number = Finite rat | NaN | PosInfinity | NegInfinity

definition js_divide :: "rat \<Rightarrow> rat \<Rightarrow> number" where
  "js_divide a b =
     (if b \<noteq> 0 then Finite (a / b)
      else if a = 0 then NaN else if 0 < a then PosInfinity else NegInfinity)"

record revenue_data =
  rd_date :: string
  rd_revenue :: rat
  rd_bills :: nat

record payment_method_data =
  pm_method :: string
  pm_amount :: rat
  pm_count :: nat

record reports =
  startDate :: time
  endDate :: time
  revenueData :: "revenue_data list"
  paymentData :: "payment_method_data list"
  totalRevenue :: rat
  totalBills :: nat
  avgBillValue :: number
  rp_toasts :: "toast list"

text \<open>
  The two grouping objects, as association lists in the order in which the keys were
  first written: a missing key is created with zeros, then amount and count are added.
\<close>

definition group_add :: "string \<Rightarrow> rat \<Rightarrow> (string \<times> rat \<times> nat) list \<Rightarrow> (string \<times> rat \<times> nat) list" where
  "group_add k v g =
     (let g1 = (if map_of g k = None then g @ [(k, (0, 0))] else g)
      in map (\<lambda>(k', (a, n)). if k' = k then (k', (a + v, n + 1)) else (k', (a, n))) g1)"

text \<open>\<open>charAt(0).toUpperCase() + slice(1)\<close>, on the letters \<open>a\<close> to \<open>z\<close>.\<close>

definition to_upper :: "char \<Rightarrow> char" where
  "to_upper c =
     (if c \<in> set ''abcdefghijklmnopqrstuvwxyz''
      then char_of (of_char c - (32 :: nat)) else c)"

definition capitalize :: "string \<Rightarrow> string" where
  "capitalize m = (case m of [] \<Rightarrow> [] | c # cs \<Rightarrow> to_upper c # cs)"

text \<open>
  The filters of the report's query: \<open>neq("status", "draft")\<close>, \<open>gte("date", start)\<close>,
  \<open>lte("date", end)\<close>.
\<close>

definition in_range :: "reports \<Rightarrow> bill_row \<Rightarrow> bool" where
  "in_range r b \<longleftrightarrow> status b \<noteq> Draft \<and> startDate r \<le> date b \<and> date b \<le> endDate r"

definition fetchRevenueData :: "world \<Rightarrow> reports \<Rightarrow> world \<times> reports" where
  "fetchRevenueData w r =
     (let (data, w1) = select_bills (in_range r) w
      in case data of
           None \<Rightarrow>
             (w1, r\<lparr>rp_toasts := rp_toasts r @
                      [\<lparr>title = ''Error'', description = Message NetworkError,
                        variant = Destructive\<rparr>]\<rparr>)
         | Some rows \<Rightarrow>
             let bs = sort_key date rows
             in if length bs = 0
                then (w1, r\<lparr>revenueData := [], paymentData := [], totalRevenue := 0,
                           totalBills := 0, avgBillValue := Finite 0\<rparr>)
                else
                  let total' = foldl (\<lambda>sum bill. sum + b_total bill) 0 bs;
                      groupedByDate =
                        foldl (\<lambda>g bill. group_add (fmt_day w1 (date bill)) (b_total bill) g) [] bs;
                      chartData =
                        map (\<lambda>(d, (rev, n)). \<lparr>rd_date = d, rd_revenue = round2 rev,
                                               rd_bills = n\<rparr>) groupedByDate;
                      paymentMethods =
                        foldl (\<lambda>g bill.
                                 group_add (case payment_method bill of
                                              None \<Rightarrow> ''Not Specified''
                                            | Some m \<Rightarrow> if m = '''' then ''Not Specified'' else m)
                                           (b_total bill) g) [] bs;
                      paymentChartData =
                        map (\<lambda>(m, (amt, n)). \<lparr>pm_method = capitalize m, pm_amount = round2 amt,
                                               pm_count = n\<rparr>) paymentMethods
                  in (w1, r\<lparr>revenueData := chartData, paymentData := paymentChartData,
                             totalRevenue := total', totalBills := length bs,
                             avgBillValue := js_divide total' (of_nat (length bs))\<rparr>))"

section \<open>Auxiliary notions for the proofs\<close>

text \<open>A request leaves its entry in the log; the stored part of an item row.\<close>

definition log_call :: "call \<Rightarrow> world \<Rightarrow> world" where
  "log_call c w = w\<lparr>calls := calls w @ [c]\<rparr>"

definition item_data :: "bill_item_row \<Rightarrow> bill_item_data" where
  "item_data r =
     \<lparr>bill_id = bill_id r, item_name_snapshot = item_name_snapshot r,
      price_snapshot = price_snapshot r, quantity = quantity r, line_total = line_total r\<rparr>"

text \<open>The reads that follow a successful save of bill \<open>b\<close>.\<close>

definition read_calls :: "uuid \<Rightarrow> call set" where
  "read_calls b = {Call Select Bills (Some b), Call Select BillItems (Some b), Call Select Bills None}"

text \<open>The rows that \<open>add_items\<close> appends.\<close>

fun new_rows :: "bill_item_data list \<Rightarrow> world \<Rightarrow> bill_item_row list" where
  "new_rows [] w = []"
| "new_rows (d # ds) w =
     stored_item w d # new_rows ds (w\<lparr>bill_items := bill_items w @ [stored_item w d]\<rparr>)"

text \<open>An amount that a \<open>DECIMAL(10, 2)\<close> column stores unchanged.\<close>

definition two_decimal_amount :: "rat \<Rightarrow> bool" where
  "two_decimal_amount x \<longleftrightarrow> decimal_10_2 x = Some x"

text \<open>
  A run of \<open>calculateTotals\<close> in which no operator rounds: every operand and every exact
  result, from the running sum \<open>acc\<close> on, is a double.
\<close>

fun exact_sum :: "rat \<Rightarrow> cart_item list \<Rightarrow> bool" where
  "exact_sum acc [] = True"
| "exact_sum acc (item # rest) =
     (let p = c_price item * of_int (c_quantity item)
      in is_double (c_price item) \<and> is_double (of_int (c_quantity item)) \<and> is_double p \<and>
         is_double (acc + p) \<and> exact_sum (acc + p) rest)"

definition exact_totals :: "cart_item list \<Rightarrow> rat \<Rightarrow> rat \<Rightarrow> bool" where
  "exact_totals crt t d =
     (let sub = (\<Sum>item\<leftarrow>crt. c_price item * of_int (c_quantity item));
          tax = sub * t / 100
      in exact_sum 0 crt \<and> is_double t \<and> is_double (sub * t) \<and> is_double tax \<and>
         is_double (sub + tax) \<and> is_double d \<and> is_double (sub + tax - d))"

section \<open>Sample data\<close>

text \<open>
  An empty store on a reliable network, a session with one cart line (two teas at 100,
  tax 5 percent, discount 10, paid in cash), and a receipt line with a name of twenty
  characters.
\<close>

definition empty_world :: world where
  "empty_world =
     \<lparr>bills = [], bill_items = [], bill_number_seq = 1, calls = [],
      faults = (\<lambda>n. False), clock = (\<lambda>n. int n), start_of_day = (\<lambda>t. 0),
      popup_blocked = False, windows = [], fmt_date = (\<lambda>t. ''1/1/2025 10:00:00''),
      fmt_day = (\<lambda>t. ''Jan 01''), show_number = (\<lambda>x. ''5'')\<rparr>"

definition tea_session :: billing where
  "tea_session =
     \<lparr>cart = [\<lparr>c_id = 7, c_name = ''Tea'', c_price = 100, c_quantity = 2,
               c_category = ''Drinks''\<rparr>],
      settings = \<lparr>tax_percentage = 5, shop_name = ''My Shop'', shop_phone = None\<rparr>,
      discount = 10, paymentMethod = ''cash'', currentBillId = None, savedBills = [],
      todayRevenue = 0, toasts = []\<rparr>"

definition biryani_line :: bill_item_data where
  "biryani_line =
     \<lparr>bill_id = 1, item_name_snapshot = ''Chicken Biryani Full'', price_snapshot = 5 / 2,
      quantity = 2, line_total = 5\<rparr>"

definition tea_item :: menu_item where
  "tea_item = \<lparr>m_id = 7, m_name = ''Tea'', m_price = 100, m_category = ''Drinks''\<rparr>"

text \<open>A store that holds the sample bill, printed, and the page about to delete it.\<close>

definition tea_bill :: bill_row where
  "tea_bill =
     \<lparr>subtotal = 200, tax_amount = 10, b_discount = 10, b_total = 200,
      payment_method = Some ''cash'', status = Printed, b_id = 1, bill_number = 1,
      date = 1, created_at = 1\<rparr>"

definition tea_world :: world where
  "tea_world =
     empty_world
       \<lparr>bills := [tea_bill],
        bill_items := [\<lparr>bill_id = 1, item_name_snapshot = ''Tea'', price_snapshot = 100,
                        quantity = 2, line_total = 200, bi_id = 2\<rparr>],
        bill_number_seq := 2\<rparr>"

definition delete_page :: previous_bills where
  "delete_page =
     \<lparr>pb_bills = [tea_bill], billToDelete = Some tea_bill, deleteDialogOpen = True,
      pb_toasts = []\<rparr>"

text \<open>A reports page whose range holds no bill of that store, with stale aggregates.\<close>

definition empty_reports :: reports where
  "empty_reports =
     \<lparr>startDate = 100, endDate = 200, revenueData = [], paymentData = [], totalRevenue = 7,
      totalBills = 3, avgBillValue = NaN, rp_toasts = []\<rparr>"

text \<open>
  The same store on a network that loses the second request sent to it, and a session
  that edits the stored bill, replacing the tea by a coffee.
\<close>

definition flaky_world :: world where
  "flaky_world = tea_world\<lparr>faults := (\<lambda>n. n = 1)\<rparr>"

definition coffee_session :: billing where
  "coffee_session =
     tea_session
       \<lparr>cart := [\<lparr>c_id = 8, c_name = ''Coffee'', c_price = 50, c_quantity = 1,
                  c_category = ''Drinks''\<rparr>],
        currentBillId := Some 1\<rparr>"

text \<open>A cart of three sweets at 0.10 each.\<close>

definition candy_cart :: "cart_item list" where
  "candy_cart =
     [\<lparr>c_id = 9, c_name = ''Candy'', c_price = 1 / 10, c_quantity = 3,
       c_category = ''Sweets''\<rparr>]"

section \<open>Doubles\<close>

text \<open>A whole number of at most 53 bits is a double: no rounding takes place.\<close>

lemma digit_count_le: "n < 2 ^ m \<Longrightarrow> digit_count 2 n \<le> int m"
proof (induction m arbitrary: n)
  case 0
  then show ?case by (simp add: digit_count.simps)
next
  case (Suc m)
  show ?case
  proof (cases "n \<le> 0")
    case True
    then show ?thesis by (simp add: digit_count.simps)
  next
    case False
    from Suc.prems have "n div 2 < 2 ^ m" by simp
    from Suc.IH [OF this] False show ?thesis
      by (subst digit_count.simps) simp
  qed
qed

lemma digit_count_one: "digit_count 2 1 = 1"
  by (simp add: digit_count.simps)

lemma round_half_even_of_int: "round_half_even (of_int z) = z"
  by (simp add: round_half_even_def)

lemma scale_by_nonpos: "j \<le> 0 \<Longrightarrow> scale_by 2 j = 1 / 2 ^ nat (- j)"
  by (cases "j = 0") (simp_all add: scale_by_def)

lemma binary_exponent_of_int: "\<bar>n\<bar> < 2 ^ 53 \<Longrightarrow> binary_exponent (of_int n) \<le> 52"
proof -
  assume "\<bar>n\<bar> < 2 ^ 53"
  then have "digit_count 2 \<bar>n\<bar> \<le> 53" using digit_count_le [of "\<bar>n\<bar>" 53] by simp
  moreover have "\<bar>of_int n :: rat\<bar> = of_int \<bar>n\<bar>" by simp
  then have "quotient_of \<bar>of_int n :: rat\<bar> = (\<bar>n\<bar>, 1)"
    by (simp only: quotient_of_rat_of_int)
  ultimately show ?thesis
    by (simp add: binary_exponent_def digit_count_one Let_def)
qed

lemma double_of_int: "\<bar>n\<bar> < 2 ^ 53 \<Longrightarrow> double (of_int n) = of_int n"
proof (cases "n = 0")
  case True
  then show ?thesis by (simp add: double_def)
next
  case False
  assume "\<bar>n\<bar> < 2 ^ 53"
  then have be: "binary_exponent (of_int n) \<le> 52" by (rule binary_exponent_of_int)
  define j where "j = max (binary_exponent (of_int n)) (- 1022) - 52"
  from be have j: "j \<le> 0" by (simp add: j_def)
  then have ulp: "scale_by 2 j = 1 / 2 ^ nat (- j)" by (rule scale_by_nonpos)
  have "(of_int n :: rat) / scale_by 2 j = of_int (n * 2 ^ nat (- j))"
    by (simp add: ulp)
  then have "round_half_even (of_int n / scale_by 2 j) = n * 2 ^ nat (- j)"
    by (simp only: round_half_even_of_int)
  then have "of_int (round_half_even (of_int n / scale_by 2 j)) * scale_by 2 j = (of_int n :: rat)"
    by (simp add: ulp)
  with False show ?thesis
    by (simp add: double_def Let_def j_def)
qed

text \<open>
  Hence a whole number below \<open>2 ^ 53\<close> is read off as its own double; the equation
  also serves the evaluation of the sample data.
\<close>

lemma double_whole [code]:
  "double x =
     (let (p, q) = quotient_of x
      in if q = 1 \<and> \<bar>p\<bar> < 9007199254740992 then x
         else if x = 0 then 0
         else let e = max (binary_exponent x) (- 1022);
                  ulp = scale_by 2 (e - 52)
              in of_int (round_half_even (x / ulp)) * ulp)"
proof (cases "snd (quotient_of x) = 1 \<and> \<bar>fst (quotient_of x)\<bar> < 9007199254740992")
  case True
  then have "x = of_int (fst (quotient_of x))"
    by (metis div_by_1 of_int_1 prod.collapse quotient_of_div)
  with True double_of_int [of "fst (quotient_of x)"] show ?thesis
    by (simp add: split_def)
next
  case False
  then show ?thesis by (auto simp add: split_def double_def Let_def)
qed

section \<open>Cart invariant\<close>

lemma map_c_id_update:
  "map c_id (map (\<lambda>c. if P c then c\<lparr>c_quantity := f c\<rparr> else c) crt) = map c_id crt"
  by (induction crt) simp_all

lemma addToCart_ok: "cart_ok crt \<Longrightarrow> cart_ok (addToCart item crt)"
proof (cases "find (\<lambda>c. c_id c = m_id item) crt")
  case None
  assume ok: "cart_ok crt"
  from None have "m_id item \<notin> set (map c_id crt)"
    by (auto simp: find_None_iff)
  with ok None show ?thesis
    by (simp add: cart_ok_def addToCart_def)
next
  case (Some existing)
  assume ok: "cart_ok crt"
  let ?new = "map (\<lambda>c. if c_id c = m_id item then c\<lparr>c_quantity := c_quantity c + 1\<rparr> else c) crt"
  have "distinct (map c_id ?new)"
    using ok by (simp only: map_c_id_update cart_ok_def)
  moreover have "list_all (\<lambda>c. 1 \<le> c_quantity c) ?new"
    using ok by (auto simp: cart_ok_def list_all_iff)
  ultimately show ?thesis
    using Some by (simp add: cart_ok_def addToCart_def)
qed

lemma updateQuantity_ok: "cart_ok crt \<Longrightarrow> cart_ok (updateQuantity i ch crt)"
proof -
  assume ok: "cart_ok crt"
  let ?m = "map (\<lambda>item. if c_id item = i
                         then item\<lparr>c_quantity := max 0 (c_quantity item + ch)\<rparr>
                         else item) crt"
  have "distinct (map c_id ?m)"
    using ok by (simp only: map_c_id_update cart_ok_def)
  then have "distinct (map c_id (updateQuantity i ch crt))"
    unfolding updateQuantity_def by (rule distinct_map_filter)
  moreover have "list_all (\<lambda>c. 1 \<le> c_quantity c) (updateQuantity i ch crt)"
    by (auto simp: updateQuantity_def list_all_iff)
  ultimately show ?thesis by (simp add: cart_ok_def)
qed

lemma removeItem_ok: "cart_ok crt \<Longrightarrow> cart_ok (removeItem i crt)"
  unfolding cart_ok_def removeItem_def
  by (auto simp: distinct_map_filter list_all_iff)

lemma updateQuantity_drops_line:
  assumes "\<forall>c\<in>set crt. c_id c = i \<longrightarrow> c_quantity c + ch \<le> 0"
  shows "i \<notin> c_id ` set (updateQuantity i ch crt)"
proof
  assume "i \<in> c_id ` set (updateQuantity i ch crt)"
  then obtain d where d: "d \<in> set (updateQuantity i ch crt)" "c_id d = i" by auto
  from d(1) obtain c where c: "c \<in> set crt"
     "d = (if c_id c = i then c\<lparr>c_quantity := max 0 (c_quantity c + ch)\<rparr> else c)"
     "c_quantity d > 0"
    unfolding updateQuantity_def by auto
  from c(2) d(2) have ci: "c_id c = i" by (cases "c_id c = i") simp_all
  with c(2) have "c_quantity d = max 0 (c_quantity c + ch)" by simp
  with assms c(1) ci have "c_quantity d = 0" by auto
  with c(3) show False by simp
qed

lemma addToCart_present:
  assumes "m_id item \<in> c_id ` set crt"
  shows "addToCart item crt =
         map (\<lambda>c. if c_id c = m_id item then c\<lparr>c_quantity := c_quantity c + 1\<rparr> else c) crt"
proof -
  from assms have "find (\<lambda>c. c_id c = m_id item) crt \<noteq> None"
    by (auto simp: find_None_iff)
  then show ?thesis by (auto simp: addToCart_def)
qed

text \<open>
  Claim C9.  Each of the three cart mutations keeps the cart invariant (one line per
  item id, every quantity at least 1).  A line whose quantity would drop to 0 or below
  is no longer in the cart after \<open>updateQuantity\<close>, and \<open>addToCart\<close> of an item that is
  already in the cart keeps the lines as they are and adds 1 to the quantity of that
  item's line.
\<close>

theorem cart_invariant_preserved:
  assumes "cart_ok crt"
  shows "cart_ok (addToCart item crt) \<and>
         cart_ok (updateQuantity i ch crt) \<and>
         cart_ok (removeItem i crt) \<and>
         ((\<forall>c\<in>set crt. c_id c = i \<longrightarrow> c_quantity c + ch \<le> 0) \<longrightarrow>
            i \<notin> c_id ` set (updateQuantity i ch crt)) \<and>
         (m_id item \<in> c_id ` set crt \<longrightarrow>
            addToCart item crt =
            map (\<lambda>c. if c_id c = m_id item then c\<lparr>c_quantity := c_quantity c + 1\<rparr> else c) crt)"
  using assms addToCart_ok updateQuantity_ok removeItem_ok updateQuantity_drops_line
    addToCart_present
  by blast

theorem cart_invariant_witness:
  "cart_ok (cart tea_session) \<and>
   c_quantity (hd (cart tea_session)) + (- 2) \<le> 0 \<and>
   m_id tea_item \<in> c_id ` set (cart tea_session) \<and>
   cart_ok (addToCart tea_item (cart tea_session)) \<and>
   cart_ok (updateQuantity 7 (- 2) (cart tea_session)) \<and>
   cart_ok (removeItem 7 (cart tea_session)) \<and>
   7 \<notin> c_id ` set (updateQuantity 7 (- 2) (cart tea_session)) \<and>
   map c_quantity (addToCart tea_item (cart tea_session)) = [3]"
proof -
  have ok: "cart_ok (cart tea_session)"
    by (simp add: cart_ok_def tea_session_def)
  have low: "\<forall>c\<in>set (cart tea_session). c_id c = 7 \<longrightarrow> c_quantity c + (- 2) \<le> 0"
    by (simp add: tea_session_def)
  have there: "m_id tea_item \<in> c_id ` set (cart tea_session)"
    by (simp add: tea_session_def tea_item_def)
  from cart_invariant_preserved [OF ok, of tea_item 7 "- 2"] low there
  have "cart_ok (addToCart tea_item (cart tea_session))"
    and "cart_ok (updateQuantity 7 (- 2) (cart tea_session))"
    and "cart_ok (removeItem 7 (cart tea_session))"
    and "7 \<notin> c_id ` set (updateQuantity 7 (- 2) (cart tea_session))"
    and "addToCart tea_item (cart tea_session) =
         map (\<lambda>c. if c_id c = m_id tea_item then c\<lparr>c_quantity := c_quantity c + 1\<rparr> else c)
           (cart tea_session)"
    by blast+
  moreover have "c_quantity (hd (cart tea_session)) + (- 2) \<le> 0"
    by (simp add: tea_session_def)
  moreover have "map c_quantity
      (map (\<lambda>c. if c_id c = m_id tea_item then c\<lparr>c_quantity := c_quantity c + 1\<rparr> else c)
        (cart tea_session)) = [3]"
    by (simp add: tea_session_def tea_item_def)
  ultimately show ?thesis using ok there by simp
qed

section \<open>Totals\<close>

lemma double_zero: "double 0 = 0"
  by (simp add: double_def)

lemma double_hundred: "double 100 = 100"
  by code_simp

lemma num_add_exact: "is_double a \<Longrightarrow> is_double b \<Longrightarrow> is_double (a + b) \<Longrightarrow> num_add a b = a + b"
  by (simp add: num_add_def is_double_def)

lemma num_sub_exact: "is_double a \<Longrightarrow> is_double b \<Longrightarrow> is_double (a - b) \<Longrightarrow> num_sub a b = a - b"
  by (simp add: num_sub_def is_double_def)

lemma num_mul_exact: "is_double a \<Longrightarrow> is_double b \<Longrightarrow> is_double (a * b) \<Longrightarrow> num_mul a b = a * b"
  by (simp add: num_mul_def is_double_def)

lemma num_div_exact: "is_double a \<Longrightarrow> is_double b \<Longrightarrow> is_double (a / b) \<Longrightarrow> num_div a b = a / b"
  by (simp add: num_div_def is_double_def)

lemma exact_sum_foldl:
  "is_double acc \<Longrightarrow> exact_sum acc crt \<Longrightarrow>
   foldl (\<lambda>sum item. num_add sum (num_mul (c_price item) (of_int (c_quantity item)))) acc crt =
     acc + (\<Sum>item\<leftarrow>crt. c_price item * of_int (c_quantity item)) \<and>
   is_double (acc + (\<Sum>item\<leftarrow>crt. c_price item * of_int (c_quantity item)))"
proof (induction crt arbitrary: acc)
  case Nil
  then show ?case by simp
next
  case (Cons item rest)
  let ?p = "c_price item * of_int (c_quantity item)"
  from Cons.prems(2) have p: "is_double (c_price item)" "is_double (of_int (c_quantity item))"
      "is_double ?p"
    and s: "is_double (acc + ?p)" and r: "exact_sum (acc + ?p) rest"
    by (simp_all add: Let_def)
  from p have mul: "num_mul (c_price item) (of_int (c_quantity item)) = ?p"
    by (rule num_mul_exact)
  from Cons.prems(1) p(3) s have add: "num_add acc ?p = acc + ?p"
    by (rule num_add_exact)
  from Cons.IH [OF s r] show ?case
    by (simp add: mul add add.assoc)
qed

text \<open>
  Claim C2.  For every cart, tax rate and discount (of either sign and of any size),
  \<open>calculateTotals\<close> returns the sum of unit price times quantity, taken line by line
  from 0, as subtotal, subtotal times rate over 100 as tax amount, and subtotal plus tax
  amount minus discount as total, each operation rounded to the nearest double; nothing
  is clamped.  The three results are exactly the sum of the products, that sum times the
  rate over 100, and sum plus tax minus discount whenever no operation rounds, that is,
  whenever the operands and the exact results are doubles themselves.
\<close>

theorem calculateTotals_rounded:
  "calculateTotals crt t d =
     (let sub = foldl (\<lambda>sum item.
                         num_add sum (num_mul (c_price item) (of_int (c_quantity item))))
                      0 crt;
          tax = num_div (num_mul sub t) 100
      in (sub, tax, num_sub (num_add sub tax) d)) \<and>
   (exact_totals crt t d \<longrightarrow>
      calculateTotals crt t d =
        (let sub = (\<Sum>item\<leftarrow>crt. c_price item * of_int (c_quantity item))
         in (sub, sub * t / 100, sub + sub * t / 100 - d)))"
proof -
  let ?sub = "\<Sum>item\<leftarrow>crt. c_price item * of_int (c_quantity item)"
  let ?tax = "?sub * t / 100"
  have shape: "calculateTotals crt t d =
     (let sub = foldl (\<lambda>sum item.
                         num_add sum (num_mul (c_price item) (of_int (c_quantity item))))
                      0 crt;
          tax = num_div (num_mul sub t) 100
      in (sub, tax, num_sub (num_add sub tax) d))"
    by (simp add: calculateTotals_def Let_def)
  have exact: "calculateTotals crt t d = (?sub, ?tax, ?sub + ?tax - d)"
    if ex: "exact_totals crt t d"
  proof -
    from ex have es: "exact_sum 0 crt" and t: "is_double t" and st: "is_double (?sub * t)"
      and tax: "is_double ?tax" and sum: "is_double (?sub + ?tax)" and d: "is_double d"
      and tot: "is_double (?sub + ?tax - d)"
      by (simp_all add: exact_totals_def Let_def)
    have z: "is_double 0" by (simp add: is_double_def double_zero)
    have h: "is_double 100" by (simp add: is_double_def double_hundred)
    from exact_sum_foldl [OF z es]
    have fold: "foldl (\<lambda>sum item.
                  num_add sum (num_mul (c_price item) (of_int (c_quantity item)))) 0 crt = ?sub"
      and sub: "is_double ?sub"
      by simp_all
    from sub t st have mul: "num_mul ?sub t = ?sub * t" by (rule num_mul_exact)
    from st h tax have dv: "num_div (?sub * t) 100 = ?tax" by (rule num_div_exact)
    from sub tax sum have add: "num_add ?sub ?tax = ?sub + ?tax" by (rule num_add_exact)
    from sum d tot have minus: "num_sub (?sub + ?tax) d = ?sub + ?tax - d"
      by (rule num_sub_exact)
    show ?thesis
      unfolding calculateTotals_def Let_def fold mul dv add minus by (rule refl)
  qed
  show ?thesis
  proof (intro conjI impI)
    show "calculateTotals crt t d =
       (let sub = foldl (\<lambda>sum item.
                           num_add sum (num_mul (c_price item) (of_int (c_quantity item))))
                        0 crt;
            tax = num_div (num_mul sub t) 100
        in (sub, tax, num_sub (num_add sub tax) d))"
      by (rule shape)
  next
    assume "exact_totals crt t d"
    then show "calculateTotals crt t d =
        (let sub = (\<Sum>item\<leftarrow>crt. c_price item * of_int (c_quantity item))
         in (sub, sub * t / 100, sub + sub * t / 100 - d))"
      unfolding Let_def by (rule exact)
  qed
qed

text \<open>
  Two teas at 100 with 5 percent tax and a discount of 10: no operation rounds, and the
  totals are 200, 10 and 200.
\<close>

theorem calculateTotals_rounded_witness:
  "exact_totals (cart tea_session) 5 10 \<and>
   calculateTotals (cart tea_session) 5 10 = (200, 10, 200)"
proof -
  have ex: "exact_totals (cart tea_session) 5 10" by code_simp
  have val: "(let sub = (\<Sum>item\<leftarrow>cart tea_session. c_price item * of_int (c_quantity item))
              in (sub, sub * 5 / 100, sub + sub * 5 / 100 - 10)) = (200 :: rat, 10 :: rat, 200 :: rat)"
    by (simp add: tea_session_def)
  from calculateTotals_rounded [of "cart tea_session" 5 10] ex
  have "calculateTotals (cart tea_session) 5 10 =
     (let sub = (\<Sum>item\<leftarrow>cart tea_session. c_price item * of_int (c_quantity item))
      in (sub, sub * 5 / 100, sub + sub * 5 / 100 - 10))"
    by blast
  with val ex show ?thesis by simp
qed

text \<open>
  Claim C2 as stated fails: for three sweets at 0.10 the subtotal is the double above
  three tenths, the one that the decimal 0.30000000000000004 denotes; it is neither
  three times 0.10 nor three times the double of 0.10.
\<close>

theorem calculateTotals_exact_counterexample:
  "fst (calculateTotals candy_cart 0 0) = 1351079888211149 / 4503599627370496 \<and>
   double (30000000000000004 / 100000000000000000) = 1351079888211149 / 4503599627370496 \<and>
   (\<Sum>item\<leftarrow>candy_cart. c_price item * of_int (c_quantity item)) = 3 / 10 \<and>
   (\<Sum>item\<leftarrow>candy_cart. double (c_price item) * of_int (c_quantity item)) =
     10808639105689191 / 36028797018963968 \<and>
   fst (calculateTotals candy_cart 0 0) \<noteq>
     (\<Sum>item\<leftarrow>candy_cart. c_price item * of_int (c_quantity item)) \<and>
   fst (calculateTotals candy_cart 0 0) \<noteq>
     (\<Sum>item\<leftarrow>candy_cart. double (c_price item) * of_int (c_quantity item))"
proof -
  have sub: "num_add 0 (num_mul (1 / 10) 3) = 1351079888211149 / 4503599627370496"
    by code_simp
  have v: "fst (calculateTotals candy_cart 0 0) = 1351079888211149 / 4503599627370496"
    by (simp add: calculateTotals_def candy_cart_def Let_def sub)
  have j: "double (30000000000000004 / 100000000000000000) =
      1351079888211149 / 4503599627370496"
    by code_simp
  have s: "(\<Sum>item\<leftarrow>candy_cart. c_price item * of_int (c_quantity item)) = 3 / 10"
    by (simp add: candy_cart_def)
  have sd: "(\<Sum>item\<leftarrow>candy_cart. double (c_price item) * of_int (c_quantity item)) =
      10808639105689191 / 36028797018963968"
    by code_simp
  have ne: "(1351079888211149 / 4503599627370496 :: rat) \<noteq> 3 / 10"
    "(1351079888211149 / 4503599627370496 :: rat) \<noteq> 10808639105689191 / 36028797018963968"
    by simp_all
  show ?thesis
    unfolding v s sd using j ne by (intro conjI) simp_all
qed

lemma calculateTotals_scenario:
  "calculateTotals (cart tea_session) 5 10 = (200, 10, 200) \<and>
   calculateTotals (cart tea_session) 5 (- 10) = (200, 10, 220) \<and>
   calculateTotals (cart tea_session) 5 500 = (200, 10, - 290)"
  by code_simp

section \<open>Receipt layout\<close>

text \<open>
  Claim C6.  \<open>center\<close> returns the text after exactly
  \<open>max 0 (floor ((width - length text) / 2))\<close> spaces; the count is never negative, and
  a text longer than the width (by \<open>k + 1\<close> characters, for any \<open>k\<close>) is returned as
  it is.  \<open>center "Shop" 32\<close> is fourteen spaces and then "Shop".
\<close>

theorem center_padding:
  "center s w =
     replicate (nat (max 0 \<lfloor>(of_int w - of_nat (length s) :: rat) / 2\<rfloor>)) CHR '' '' @ s \<and>
   (0 :: int) \<le> max 0 \<lfloor>(of_int w - of_nat (length s) :: rat) / 2\<rfloor> \<and>
   center s (int (length s) - int (Suc k)) = s \<and>
   center ''Shop'' 32 = replicate 14 CHR '' '' @ ''Shop''"
proof -
  have "\<lfloor>(of_int (w - int (length s)) :: rat) / 2\<rfloor> = (w - int (length s)) div 2"
    by (metis floor_divide_of_int_eq of_int_numeral)
  then have "center s w =
      replicate (nat (max 0 \<lfloor>(of_int w - of_nat (length s) :: rat) / 2\<rfloor>)) CHR '' '' @ s"
    by (simp add: center_def repeat_str_def Let_def)
  moreover have "center ''Shop'' 32 = replicate 14 CHR '' '' @ ''Shop''"
    by (simp add: center_def repeat_str_def Let_def)
  moreover have "center s (int (length s) - int (Suc k)) = s"
    by (simp add: center_def repeat_str_def Let_def)
  ultimately show ?thesis by simp
qed

lemma center_too_long: "w < int (length s) \<Longrightarrow> center s w = s"
  by (simp add: center_def repeat_str_def Let_def)

lemma digit_char_is_digit: "d < 10 \<Longrightarrow> is_digit (digit_char d)"
proof -
  assume "d < 10"
  then have "d \<in> {0,1,2,3,4,5,6,7,8,9}" by auto
  then show ?thesis
    unfolding is_digit_def digit_char_def by (elim insertE emptyE) simp_all
qed

lemma digits_small: "n < 10 \<Longrightarrow> digits n = [digit_char n]"
  by (subst digits.simps) simp

lemma digits_big: "10 \<le> n \<Longrightarrow> digits n = digits (n div 10) @ [digit_char (n mod 10)]"
  by (subst digits.simps) simp

lemma digits_all: "list_all is_digit (digits n)"
proof (induction n rule: digits.induct)
  case (1 n)
  show ?case
  proof (cases "n < 10")
    case True
    then show ?thesis by (simp add: digits_small digit_char_is_digit)
  next
    case False
    with 1 show ?thesis by (simp add: digits_big digit_char_is_digit)
  qed
qed

lemma zero_is_digit: "is_digit CHR ''0''"
  by (simp add: is_digit_def)

lemma fixed_digits_props:
  "3 \<le> length (fixed_digits x) \<and> list_all is_digit (fixed_digits x)"
  using digits_all [of "nat \<lfloor>\<bar>x\<bar> * 100 + 1 / 2\<rfloor>"]
  by (auto simp: fixed_digits_def Let_def list_all_iff zero_is_digit)

lemma toFixed2_eq:
  "toFixed2 x =
     (if x < 0 then ''-'' else '''') @
     take (length (fixed_digits x) - 2) (fixed_digits x) @ ''.'' @
     drop (length (fixed_digits x) - 2) (fixed_digits x)"
  by (auto simp: toFixed2_def fixed_digits_def Let_def)

lemma two_decimals_pre:
  "is_digit d \<Longrightarrow> is_digit p \<Longrightarrow> is_digit q \<Longrightarrow> two_decimals (pre @ [d, CHR 0x2E, p, q])"
  by (simp add: two_decimals_def nth_append)

lemma two_decimalsI:
  assumes "a \<noteq> []" "is_digit (last a)" "is_digit p" "is_digit q"
  shows "two_decimals (s @ a @ [CHR 0x2E] @ [p, q])"
proof -
  from assms(1) obtain b d where a: "a = b @ [d]"
    by (metis append_butlast_last_id)
  with assms(2) have d: "is_digit d" by simp
  have "two_decimals ((s @ b) @ [d, CHR 0x2E, p, q])"
    using d assms(3,4) by (rule two_decimals_pre)
  then show ?thesis by (simp add: a)
qed

lemma split_last_two:
  assumes "3 \<le> length m"
  obtains a p q where "m = a @ [p, q]" "a \<noteq> []"
proof -
  from assms obtain m1 q where m1: "m = m1 @ [q]"
    by (cases m rule: rev_cases) auto
  with assms have "2 \<le> length m1" by simp
  then obtain a p where a: "m1 = a @ [p]"
    by (cases m1 rule: rev_cases) auto
  with m1 assms have "a \<noteq> []" by auto
  with m1 a show ?thesis using that by simp
qed

lemma two_decimals_toFixed2: "two_decimals (toFixed2 x)"
proof -
  let ?m = "fixed_digits x"
  from fixed_digits_props [of x]
  have len: "3 \<le> length ?m" and dig: "\<forall>c\<in>set ?m. is_digit c"
    by (simp_all add: list_all_iff)
  from len obtain a p q where m: "?m = a @ [p, q]" and a: "a \<noteq> []"
    by (rule split_last_two)
  from dig m a have digs: "is_digit (last a)" "is_digit p" "is_digit q"
    by auto
  have "toFixed2 x = (if x < 0 then ''-'' else '''') @ a @ ''.'' @ [p, q]"
    by (simp add: toFixed2_eq m)
  with a digs show ?thesis
    using two_decimalsI [of a p q "(if x < 0 then ''-'' else '''')"] by simp
qed

lemma right_justified_padStart: "right_justified w s (padStart w s)"
  by (auto simp: right_justified_def padStart_def)

lemma item_name_col_length: "length (item_name_col item) = 16"
  by (simp add: item_name_col_def padEnd_def)

lemma digit_val_digit_char: "d < 10 \<Longrightarrow> digit_val (digit_char d) = d"
proof -
  assume "d < 10"
  then have "d \<in> {0,1,2,3,4,5,6,7,8,9}" by auto
  then show ?thesis
    unfolding digit_val_def digit_char_def by (elim insertE emptyE) simp_all
qed

lemma dec_value_snoc: "dec_value (s @ [c]) = 10 * dec_value s + digit_val c"
  by (simp add: dec_value_def)

lemma dec_value_digits: "dec_value (digits n) = n"
proof (induction n rule: digits.induct)
  case (1 n)
  show ?case
  proof (cases "n < 10")
    case True
    then show ?thesis
      by (simp add: digits_small dec_value_def digit_val_digit_char)
  next
    case False
    then have "dec_value (digits (n div 10)) = n div 10" using 1 by simp
    with False show ?thesis
      by (simp add: digits_big dec_value_snoc digit_val_digit_char)
  qed
qed

lemma dec_value_zeros: "dec_value (replicate k CHR ''0'' @ s) = dec_value s"
proof -
  have z: "digit_val CHR ''0'' = 0" by (simp add: digit_val_def)
  have "foldl (\<lambda>a c. 10 * a + digit_val c) 0 (replicate k CHR ''0'') = 0"
    by (induction k) (simp_all add: z)
  then show ?thesis by (simp add: dec_value_def)
qed

lemma dec_value_fixed_digits: "dec_value (fixed_digits x) = nat \<lfloor>\<bar>x\<bar> * 100 + 1 / 2\<rfloor>"
  by (simp add: fixed_digits_def Let_def dec_value_zeros dec_value_digits)

lemma not_digit_signs: "\<not> is_digit CHR ''-''" "\<not> is_digit CHR ''.''"
  by (simp_all add: is_digit_def)

lemma filter_digits_toFixed2: "filter is_digit (toFixed2 x) = fixed_digits x"
proof -
  let ?m = "fixed_digits x"
  from fixed_digits_props [of x] have dig: "\<forall>c\<in>set ?m. is_digit c"
    by (simp add: list_all_iff)
  then have all: "filter is_digit ?m = ?m" by simp
  have "filter is_digit (toFixed2 x) =
          filter is_digit (take (length ?m - 2) ?m) @ filter is_digit (drop (length ?m - 2) ?m)"
    by (simp add: toFixed2_eq not_digit_signs)
  also have "\<dots> = filter is_digit (take (length ?m - 2) ?m @ drop (length ?m - 2) ?m)"
    by (simp only: filter_append)
  also have "\<dots> = ?m" by (simp only: append_take_drop_id all)
  finally show ?thesis .
qed

lemma toFixed2_value:
  "dec_value (filter is_digit (toFixed2 x)) = nat \<lfloor>\<bar>x\<bar> * 100 + 1 / 2\<rfloor>"
  by (simp only: filter_digits_toFixed2 dec_value_fixed_digits)

text \<open>
  Claim C7.  The receipt line of an item is its four columns separated by single
  spaces.  The name column is the first 13 characters of the name followed by three
  dots when the name has more than 16 characters, and otherwise the name followed by
  spaces up to 16 characters; it is 16 characters wide in both cases.  The quantity is
  right-justified in 3 characters, the unit price in 5 and the line total in 6 (a text
  wider than its column is kept whole).  Both amounts are written with two decimals,
  and their digits are the amount in hundredths, rounded to the nearest.  A name of 20
  characters is rendered as its first 13 characters and three dots.
\<close>

theorem item_line_layout:
  "item_line item =
     item_name_col item @ '' '' @ item_qty_col item @ '' '' @ item_price_col item @ '' '' @
     item_total_col item @ nl \<and>
   item_name_col item =
     (if 16 < length (item_name_snapshot item)
      then take 13 (item_name_snapshot item) @ ''...''
      else item_name_snapshot item @
           replicate (16 - length (item_name_snapshot item)) CHR '' '') \<and>
   length (item_name_col item) = 16 \<and>
   right_justified 3 (int_toString (quantity item)) (item_qty_col item) \<and>
   right_justified 5 (toFixed2 (price_snapshot item)) (item_price_col item) \<and>
   right_justified 6 (toFixed2 (line_total item)) (item_total_col item) \<and>
   two_decimals (toFixed2 (price_snapshot item)) \<and>
   two_decimals (toFixed2 (line_total item)) \<and>
   dec_value (filter is_digit (toFixed2 (price_snapshot item))) =
     nat \<lfloor>\<bar>price_snapshot item\<bar> * 100 + 1 / 2\<rfloor> \<and>
   dec_value (filter is_digit (toFixed2 (line_total item))) =
     nat \<lfloor>\<bar>line_total item\<bar> * 100 + 1 / 2\<rfloor> \<and>
   (length (item_name_snapshot item) = 20 \<longrightarrow>
      item_name_col item = take 13 (item_name_snapshot item) @ ''...'')"
proof -
  have name: "item_name_col item =
     (if 16 < length (item_name_snapshot item)
      then take 13 (item_name_snapshot item) @ ''...''
      else item_name_snapshot item @
           replicate (16 - length (item_name_snapshot item)) CHR '' '')"
    by (simp add: item_name_col_def padEnd_def)
  have cols: "right_justified 3 (int_toString (quantity item)) (item_qty_col item)"
    "right_justified 5 (toFixed2 (price_snapshot item)) (item_price_col item)"
    "right_justified 6 (toFixed2 (line_total item)) (item_total_col item)"
    by (simp_all add: item_qty_col_def item_price_col_def item_total_col_def
        right_justified_padStart)
  have long: "length (item_name_snapshot item) = 20 \<longrightarrow>
      item_name_col item = take 13 (item_name_snapshot item) @ ''...''"
    by (simp add: item_name_col_def)
  show ?thesis
    using name cols long item_name_col_length [of item]
      two_decimals_toFixed2 [of "price_snapshot item"]
      two_decimals_toFixed2 [of "line_total item"]
      toFixed2_value [of "price_snapshot item"] toFixed2_value [of "line_total item"]
    by (simp only: item_line_def simp_thms)
qed

theorem item_line_layout_witness:
  "length (item_name_snapshot biryani_line) = 20 \<and>
   item_name_col biryani_line = ''Chicken Birya...'' \<and>
   item_line biryani_line = ''Chicken Birya...   2  2.50   5.00'' @ nl"
proof -
  have len: "length (item_name_snapshot biryani_line) = 20"
    by (simp add: biryani_line_def)
  have cols: "item_qty_col biryani_line = ''  2''"
    "item_price_col biryani_line = '' 2.50''"
    "item_total_col biryani_line = ''  5.00''"
    by code_simp+
  from item_line_layout [of biryani_line] len
  have "item_name_col biryani_line = take 13 (item_name_snapshot biryani_line) @ ''...''"
    and "item_line biryani_line =
         item_name_col biryani_line @ '' '' @ item_qty_col biryani_line @ '' '' @
         item_price_col biryani_line @ '' '' @ item_total_col biryani_line @ nl"
    by blast+
  with len cols show ?thesis
    by (simp add: biryani_line_def)
qed

section \<open>Facts about the requests\<close>

lemma request_eq: "request c w = (\<not> faults w (length (calls w)), log_call c w)"
  by (simp add: request_def log_call_def)

lemma log_call_simps [simp]:
  "bills (log_call c w) = bills w"
  "bill_items (log_call c w) = bill_items w"
  "faults (log_call c w) = faults w"
  "calls (log_call c w) = calls w @ [c]"
  "bill_number_seq (log_call c w) = bill_number_seq w"
  by (simp_all add: log_call_def)

lemma select_bills_world: "snd (select_bills k w) = log_call (Call Select Bills None) w"
  by (simp add: select_bills_def request_eq)

lemma select_bill_world: "snd (select_bill i w) = log_call (Call Select Bills (Some i)) w"
  by (simp add: select_bill_def request_eq split: list.splits)

lemma select_bill_items_world:
  "snd (select_bill_items i w) = log_call (Call Select BillItems (Some i)) w"
  by (simp add: select_bill_items_def request_eq)

lemma fetchSavedBills_world: "fst (fetchSavedBills w s) = log_call (Call Select Bills None) w"
  using select_bills_world [of "\<lambda>b. status b = Draft" w]
  by (simp add: fetchSavedBills_def split_def Let_def)

lemma fetchTodayRevenue_world: "fst (fetchTodayRevenue w s) = log_call (Call Select Bills None) w"
  by (simp add: fetchTodayRevenue_def split_def Let_def select_bills_world)

lemma fetchSavedBills_session:
  "cart (snd (fetchSavedBills w s)) = cart s"
  "discount (snd (fetchSavedBills w s)) = discount s"
  "paymentMethod (snd (fetchSavedBills w s)) = paymentMethod s"
  "currentBillId (snd (fetchSavedBills w s)) = currentBillId s"
  by (simp_all add: fetchSavedBills_def split_def Let_def)

lemma fetchTodayRevenue_session:
  "cart (snd (fetchTodayRevenue w s)) = cart s"
  "discount (snd (fetchTodayRevenue w s)) = discount s"
  "paymentMethod (snd (fetchTodayRevenue w s)) = paymentMethod s"
  "currentBillId (snd (fetchTodayRevenue w s)) = currentBillId s"
  by (simp_all add: fetchTodayRevenue_def split_def Let_def)

lemma printBill_tables:
  "bills (printBill i st w) = bills w"
  "bill_items (printBill i st w) = bill_items w"
  "faults (printBill i st w) = faults w"
  "calls (printBill i st w) = calls w @ [Call Select Bills (Some i), Call Select BillItems (Some i)]"
proof -
  let ?w2 = "log_call (Call Select BillItems (Some i)) (log_call (Call Select Bills (Some i)) w)"
  have w2: "snd (select_bill_items i (snd (select_bill i w))) = ?w2"
    by (simp add: select_bill_items_world select_bill_world)
  have "printBill i st w = ?w2 \<or> (\<exists>r. printBill i st w = ?w2\<lparr>windows := r\<rparr>)"
    using w2 by (auto simp: printBill_def split_def Let_def split: option.splits)
  then show "bills (printBill i st w) = bills w"
    "bill_items (printBill i st w) = bill_items w"
    "faults (printBill i st w) = faults w"
    "calls (printBill i st w) = calls w @ [Call Select Bills (Some i), Call Select BillItems (Some i)]"
    by auto
qed

lemma add_items_tables:
  "bills (add_items ds w) = bills w \<and> faults (add_items ds w) = faults w \<and>
   calls (add_items ds w) = calls w"
  by (induction ds arbitrary: w) simp_all

lemma add_items_rows: "bill_items (add_items ds w) = bill_items w @ new_rows ds w"
  by (induction ds arbitrary: w) simp_all

lemma item_data_stored_item: "item_data (stored_item w d) = d"
  by (simp add: item_data_def stored_item_def)

lemma new_rows_data: "map item_data (new_rows ds w) = ds"
  by (induction ds arbitrary: w) (simp_all add: item_data_stored_item)

lemma insert_bill_items_ok:
  assumes "insert_bill_items items w = (Inr u, w')"
  shows "\<exists>items'. check_items (log_call (Call Insert BillItems None) w) items = Inr items' \<and>
           w' = add_items items' (log_call (Call Insert BillItems None) w)"
  using assms
  by (auto simp: insert_bill_items_def request_eq split: if_splits sum.splits)

lemma save_items_saved:
  assumes "save_items p b w s = (BillSaved bid, w', s')"
  shows "bid = b \<and>
         (\<exists>items'. check_items (log_call (Call Insert BillItems None) w)
                      (items_of_cart b (cart s)) = Inr items' \<and>
            bill_items w' =
              bill_items w @ new_rows items' (log_call (Call Insert BillItems None) w)) \<and>
         bills w' = bills w \<and> faults w' = faults w \<and>
         cart s' = [] \<and> discount s' = 0 \<and> paymentMethod s' = '''' \<and> currentBillId s' = None"
proof -
  obtain res w1 where ins: "insert_bill_items (items_of_cart b (cart s)) w = (res, w1)"
    by (cases "insert_bill_items (items_of_cart b (cart s)) w")
  show ?thesis
  proof (cases res)
    case (Inl e)
    with assms ins show ?thesis by (simp add: save_items_def)
  next
    case (Inr u)
    with ins obtain items' where
      chk: "check_items (log_call (Call Insert BillItems None) w) (items_of_cart b (cart s)) = Inr items'"
      and w1: "w1 = add_items items' (log_call (Call Insert BillItems None) w)"
      using insert_bill_items_ok by blast
    let ?s1 = "notify \<lparr>title = (if p then ''Bill saved & printed!'' else ''Bill saved!''),
                        description = Text ''Successfully saved.'', variant = Default\<rparr> s"
    let ?w2 = "if p then printBill b (settings ?s1) w1 else w1"
    let ?s2 = "clearCart ?s1"
    let ?f3 = "fetchSavedBills ?w2 ?s2"
    let ?f4 = "fetchTodayRevenue (fst ?f3) (snd ?f3)"
    have eq: "save_items p b w s = (BillSaved b, fst ?f4, snd ?f4)"
      using ins Inr by (simp add: save_items_def Let_def split_def)
    from assms have res: "bid = b" "w' = fst ?f4" "s' = snd ?f4"
      unfolding eq by simp_all
    have w2: "bills ?w2 = bills w1" "bill_items ?w2 = bill_items w1" "faults ?w2 = faults w1"
      by (simp_all add: printBill_tables)
    have w': "bills w' = bills w1" "bill_items w' = bill_items w1" "faults w' = faults w1"
      unfolding res using w2 by (simp_all add: fetchTodayRevenue_world fetchSavedBills_world)
    have s': "cart s' = []" "discount s' = 0" "paymentMethod s' = ''''" "currentBillId s' = None"
      unfolding res
      by (simp_all add: fetchTodayRevenue_session fetchSavedBills_session clearCart_def notify_def)
    have w1t: "bills w1 = bills w" "faults w1 = faults w"
      "bill_items w1 = bill_items w @ new_rows items' (log_call (Call Insert BillItems None) w)"
      unfolding w1 by (simp_all add: add_items_tables add_items_rows)
    from w' w1t chk s' res(1) show ?thesis
      by simp
  qed
qed


lemma le_foldr_max: "x \<in> set xs \<Longrightarrow> x \<le> foldr max xs (0 :: nat)"
  by (induction xs) auto

lemma gen_random_uuid_fresh:
  "gen_random_uuid w \<notin> b_id ` set (bills w)"
  "gen_random_uuid w \<notin> bill_id ` set (bill_items w)"
  "gen_random_uuid w \<notin> bi_id ` set (bill_items w)"
proof -
  let ?ids = "map b_id (bills w) @ map bi_id (bill_items w) @ map bill_id (bill_items w)"
  have "\<And>x. x \<in> set ?ids \<Longrightarrow> x < gen_random_uuid w"
    unfolding gen_random_uuid_def using le_foldr_max [of _ ?ids] by (simp add: less_Suc_eq_le)
  then have "gen_random_uuid w \<notin> set ?ids" by blast
  then show "gen_random_uuid w \<notin> b_id ` set (bills w)"
    "gen_random_uuid w \<notin> bill_id ` set (bill_items w)"
    "gen_random_uuid w \<notin> bi_id ` set (bill_items w)"
    by auto
qed

lemma gen_random_uuid_log_call: "gen_random_uuid (log_call c w) = gen_random_uuid w"
  by (simp add: gen_random_uuid_def)

lemma coerce_bill_data_fields:
  assumes "coerce_bill_data d = Some d'"
  shows "status d' = status d \<and> payment_method d' = payment_method d \<and>
         decimal_10_2 (b_discount d) = Some (b_discount d')"
  using assms by (auto simp: coerce_bill_data_def split: option.splits)

lemma insert_bill_ok:
  assumes "insert_bill d w = (Inr row, w')"
  shows "\<exists>d'. coerce_bill_data d = Some d' \<and> status row = status d' \<and>
           b_discount row = b_discount d' \<and> payment_method row = payment_method d'"
    and "b_id row = gen_random_uuid w"
    and "bills w' = bills w @ [row]"
    and "bill_items w' = bill_items w"
    and "faults w' = faults w"
    and "calls w' = calls w @ [Call Insert Bills None]"
  using assms
  by (auto simp: insert_bill_def request_eq Let_def gen_random_uuid_log_call
      split: if_splits option.splits)

lemma update_bill_ok:
  assumes "update_bill d i w = (Inr u, w')"
  shows "\<exists>d'. coerce_bill_data d = Some d' \<and> bills w' = map (write_bill d' i) (bills w)"
    and "bill_items w' = bill_items w"
    and "faults w' = faults w"
    and "calls w' = calls w @ [Call Update Bills (Some i)]"
  using assms
  by (auto simp: update_bill_def request_eq Let_def
      split: if_splits option.splits)

lemma delete_bill_items_world:
  "bills (snd (delete_bill_items i w)) = bills w"
  "faults (snd (delete_bill_items i w)) = faults w"
  "calls (snd (delete_bill_items i w)) = calls w @ [Call Delete BillItems (Some i)]"
  "bill_items (snd (delete_bill_items i w)) =
     (if faults w (length (calls w)) then bill_items w
      else filter (\<lambda>r. bill_id r \<noteq> i) (bill_items w))"
  by (simp_all add: delete_bill_items_def request_eq)

lemma check_item_ok:
  assumes "check_item w d = Inr d'"
  shows "bill_id d \<in> b_id ` set (bills w) \<and> 0 < quantity d \<and>
         decimal_10_2 (price_snapshot d) = Some (price_snapshot d') \<and>
         bill_id d' = bill_id d \<and> item_name_snapshot d' = item_name_snapshot d \<and>
         quantity d' = quantity d"
  using assms
  by (auto simp: check_item_def split: option.splits if_splits)

lemma check_items_ok:
  "check_items w ds = Inr ds' \<Longrightarrow> list_all2 (\<lambda>d d'. check_item w d = Inr d') ds ds'"
  by (induction ds arbitrary: ds') (auto split: sum.splits)


section \<open>Saving a bill\<close>

lemma saveBill_saved:
  assumes "saveBill p w s = (BillSaved bid, w', s')"
  shows "cart s \<noteq> [] \<and>
     ((currentBillId s = None \<and>
        (\<exists>row w1. insert_bill (billData p s) w = (Inr row, w1) \<and> bid = b_id row \<and>
           save_items p bid w1 s = (BillSaved bid, w', s'))) \<or>
      (currentBillId s = Some bid \<and>
        (\<exists>u w1. update_bill (billData p s) bid w = (Inr u, w1) \<and>
           save_items p bid (snd (delete_bill_items bid w1)) s = (BillSaved bid, w', s'))))"
proof -
  from assms have ne: "cart s \<noteq> []"
    by (auto simp: saveBill_def)
  show ?thesis
  proof (cases "currentBillId s")
    case None
    obtain res w1 where ins: "insert_bill (billData p s) w = (res, w1)"
      by (cases "insert_bill (billData p s) w")
    show ?thesis
    proof (cases res)
      case (Inl e)
      with assms ne None ins show ?thesis by (simp add: saveBill_def)
    next
      case (Inr row)
      with assms ne None ins have si: "save_items p (b_id row) w1 s = (BillSaved bid, w', s')"
        by (simp add: saveBill_def)
      then have "bid = b_id row" using save_items_saved by blast
      with si ins Inr None ne show ?thesis by simp
    qed
  next
    case (Some cur)
    obtain res w1 where upd: "update_bill (billData p s) cur w = (res, w1)"
      by (cases "update_bill (billData p s) cur w")
    show ?thesis
    proof (cases res)
      case (Inl e)
      with assms ne Some upd show ?thesis by (simp add: saveBill_def)
    next
      case (Inr u)
      with assms ne Some upd
      have si: "save_items p cur (snd (delete_bill_items cur w1)) s = (BillSaved bid, w', s')"
        by (simp add: saveBill_def split_def)
      then have "bid = cur" using save_items_saved by blast
      with si upd Inr Some ne show ?thesis by simp
    qed
  qed
qed

lemma write_bill_id: "b_id (write_bill d i r) = b_id r"
  by (simp add: write_bill_def)

lemma write_bill_hit: "b_id r = i \<Longrightarrow> status (write_bill d i r) = status d \<and>
   b_discount (write_bill d i r) = b_discount d \<and> payment_method (write_bill d i r) = payment_method d"
  by (simp add: write_bill_def)

lemma billData_fields:
  "status (billData p s) = (if p then Printed else Draft)"
  "b_discount (billData p s) = discount s"
  "payment_method (billData p s) = (if paymentMethod s = '''' then None else Some (paymentMethod s))"
  by (simp_all add: billData_def split_def Let_def)

lemma items_of_cart_bill_id: "d \<in> set (items_of_cart b crt) \<Longrightarrow> bill_id d = b"
  by (auto simp: items_of_cart_def)

lemma check_items_nonempty_bill:
  assumes "check_items w ds = Inr ds'" "d \<in> set ds"
  shows "bill_id d \<in> b_id ` set (bills w)"
proof -
  from assms(1) have "list_all2 (\<lambda>d d'. check_item w d = Inr d') ds ds'"
    by (rule check_items_ok)
  with assms(2) obtain d' where "check_item w d = Inr d'"
    by (auto simp: list_all2_conv_all_nth in_set_conv_nth)
  then show ?thesis using check_item_ok by blast
qed



lemma saveBill_saved_cases [consumes 1, case_names created updated]:
  assumes "saveBill p w s = (BillSaved bid, w', s')"
  obtains (created) row w1 where "cart s \<noteq> []" "currentBillId s = None"
      "insert_bill (billData p s) w = (Inr row, w1)" "bid = b_id row"
      "save_items p bid w1 s = (BillSaved bid, w', s')"
  | (updated) u w1 where "cart s \<noteq> []" "currentBillId s = Some bid"
      "update_bill (billData p s) bid w = (Inr u, w1)"
      "save_items p bid (snd (delete_bill_items bid w1)) s = (BillSaved bid, w', s')"
proof -
  from saveBill_saved [OF assms] have ne: "cart s \<noteq> []" by (rule conjunct1)
  from saveBill_saved [OF assms] have
    "(currentBillId s = None \<and>
        (\<exists>row w1. insert_bill (billData p s) w = (Inr row, w1) \<and> bid = b_id row \<and>
           save_items p bid w1 s = (BillSaved bid, w', s'))) \<or>
      (currentBillId s = Some bid \<and>
        (\<exists>u w1. update_bill (billData p s) bid w = (Inr u, w1) \<and>
           save_items p bid (snd (delete_bill_items bid w1)) s = (BillSaved bid, w', s')))"
    by (rule conjunct2)
  then show thesis
  proof (elim disjE conjE exE)
    fix row w1
    assume "currentBillId s = None" "insert_bill (billData p s) w = (Inr row, w1)"
      "bid = b_id row" "save_items p bid w1 s = (BillSaved bid, w', s')"
    with ne show thesis by (rule created)
  next
    fix u w1
    assume "currentBillId s = Some bid" "update_bill (billData p s) bid w = (Inr u, w1)"
      "save_items p bid (snd (delete_bill_items bid w1)) s = (BillSaved bid, w', s')"
    with ne show thesis by (rule updated)
  qed
qed


lemma write_bill_all:
  "\<forall>row\<in>set (map (write_bill d' bid) bs). b_id row = bid \<longrightarrow>
     status row = status d' \<and> b_discount row = b_discount d' \<and>
     payment_method row = payment_method d'"
proof (intro ballI impI)
  fix row assume "row \<in> set (map (write_bill d' bid) bs)" and rb: "b_id row = bid"
  then obtain x where x: "row = write_bill d' bid x" by auto
  with rb have "b_id x = bid" by (simp add: write_bill_id)
  then show "status row = status d' \<and> b_discount row = b_discount d' \<and>
     payment_method row = payment_method d'"
    unfolding x by (simp add: write_bill_hit)
qed

lemma map_b_id_write_bill: "map b_id (map (write_bill d i) bs) = map b_id bs"
  by (induction bs) (simp_all add: write_bill_id)


text \<open>
  Claim C1, as the code has it.  When \<open>saveBill\<close> saves a bill (the cart is then not
  empty), the store holds a row for that bill, and every row with its id has status
  \<open>printed\<close> when \<open>printAfter\<close> is true and status \<open>draft\<close> when it is false.
\<close>

theorem saveBill_status:
  assumes "saveBill printAfter w s = (BillSaved bid, w', s')"
  shows "cart s \<noteq> [] \<and> (\<exists>row\<in>set (bills w'). b_id row = bid) \<and>
         (\<forall>row\<in>set (bills w'). b_id row = bid \<longrightarrow>
            status row = (if printAfter then Printed else Draft))"
proof -
  from assms show ?thesis
  proof (cases rule: saveBill_saved_cases)
    case (created row w1)
    from insert_bill_ok [OF created(3)] obtain d' where
      d': "coerce_bill_data (billData printAfter s) = Some d'" "status row = status d'"
      and rid: "b_id row = gen_random_uuid w" and bw1: "bills w1 = bills w @ [row]"
      by blast
    note ne = created(1)
    from save_items_saved [OF created(5)] have bw': "bills w' = bills w1" by simp
    from coerce_bill_data_fields [OF d'(1)]
    have "status d' = status (billData printAfter s)" by (rule conjunct1)
    with d'(2) have st: "status row = (if printAfter then Printed else Draft)"
      by (simp only: billData_fields)
    have fresh: "\<forall>r\<in>set (bills w). b_id r \<noteq> bid"
    proof (intro ballI notI)
      fix r assume r: "r \<in> set (bills w)" "b_id r = bid"
      have bidg: "bid = gen_random_uuid w" using created(4) rid by (rule trans)
      from r(1) have "b_id r \<in> b_id ` set (bills w)" by (rule imageI)
      then have "gen_random_uuid w \<in> b_id ` set (bills w)" by (simp only: r(2) bidg)
      with gen_random_uuid_fresh(1) [of w] show False by (rule notE)
    qed
    have mem: "set (bills w') = insert row (set (bills w))"
      by (simp add: bw' bw1)
    have ex: "\<exists>r\<in>set (bills w'). b_id r = bid"
      unfolding mem using created(4) by simp
    have "\<forall>r\<in>set (bills w'). b_id r = bid \<longrightarrow>
            status r = (if printAfter then Printed else Draft)"
    proof (intro ballI impI)
      fix r assume r: "r \<in> set (bills w')" "b_id r = bid"
      from r(1) have "r = row \<or> r \<in> set (bills w)" unfolding mem by simp
      with fresh r(2) have "r = row" by blast
      with st show "status r = (if printAfter then Printed else Draft)" by simp
    qed
    with ex ne show ?thesis by simp
  next
    case (updated u w1)
    note ne = updated(1)
    from update_bill_ok [OF updated(3)] obtain d' where
      d': "coerce_bill_data (billData printAfter s) = Some d'"
      and bw1: "bills w1 = map (write_bill d' bid) (bills w)"
      by blast
    let ?w2 = "snd (delete_bill_items bid w1)"
    from save_items_saved [OF updated(4)] obtain items' where
      chk: "check_items (log_call (Call Insert BillItems None) ?w2)
              (items_of_cart bid (cart s)) = Inr items'"
      and bw': "bills w' = bills ?w2"
      by blast
    have bw2: "bills ?w2 = bills w1" by (simp add: delete_bill_items_world)
    from ne obtain d where d: "d \<in> set (items_of_cart bid (cart s))"
      by (cases "cart s") (auto simp: items_of_cart_def)
    from check_items_nonempty_bill [OF chk d] items_of_cart_bill_id [OF d]
    have ex: "bid \<in> b_id ` set (bills w1)" by (simp add: bw2)
    from coerce_bill_data_fields [OF d']
    have "status d' = status (billData printAfter s)" by (rule conjunct1)
    then have st: "status d' = (if printAfter then Printed else Draft)"
      by (simp only: billData_fields)
    have "\<forall>row\<in>set (bills w1). b_id row = bid \<longrightarrow> status row = status d'"
      unfolding bw1 using write_bill_all [of d' bid "bills w"] by blast
    then have all: "\<forall>row\<in>set (bills w'). b_id row = bid \<longrightarrow>
                      status row = (if printAfter then Printed else Draft)"
      by (simp add: bw' bw2 st)
    from ex have "\<exists>row\<in>set (bills w'). b_id row = bid"
      unfolding bw' bw2 by (auto simp: image_iff)
    with all ne show ?thesis by simp
  qed
qed



theorem saveBill_status_witness:
  "fst (saveBill False empty_world tea_session) = BillSaved 1 \<and>
   cart tea_session \<noteq> [] \<and>
   map b_id (bills (fst (snd (saveBill False empty_world tea_session)))) = [1] \<and>
   status (hd (bills (fst (snd (saveBill False empty_world tea_session))))) = Draft"
proof -
  let ?r = "saveBill False empty_world tea_session"
  have out: "fst ?r = BillSaved 1" by code_simp
  have ids: "map b_id (bills (fst (snd ?r))) = [1]" by code_simp
  from out have eq: "?r = (BillSaved 1, fst (snd ?r), snd (snd ?r))"
    by (metis prod.collapse)
  from ids have hd_in: "hd (bills (fst (snd ?r))) \<in> set (bills (fst (snd ?r)))"
    and hd_id: "b_id (hd (bills (fst (snd ?r)))) = 1"
    by (cases "bills (fst (snd ?r))"; simp)+
  from saveBill_status [OF eq] hd_in hd_id
  have "cart tea_session \<noteq> []"
    and "status (hd (bills (fst (snd ?r)))) = (if False then Printed else Draft)"
    by blast+
  with out ids show ?thesis by simp
qed

text \<open>
  Claim C1 as stated fails: saving the sample session without printing stores the bill
  with status \<open>draft\<close>, not \<open>saved\<close>.
\<close>

theorem saveBill_status_counterexample:
  "cart tea_session \<noteq> [] \<and>
   fst (saveBill False empty_world tea_session) = BillSaved 1 \<and>
   map status (bills (fst (snd (saveBill False empty_world tea_session)))) = [Draft] \<and>
   Draft \<noteq> Saved"
  by code_simp

text \<open>
  Claim C3.  With an empty cart \<open>saveBill\<close> returns at once: the world is the one it was
  given (no request is logged, no table is touched), and the session only gains the
  notification "Cart is empty".
\<close>

theorem saveBill_empty_cart:
  assumes "cart s = []"
  shows "saveBill printAfter w s =
           (EmptyCart, w,
            s\<lparr>toasts := toasts s @
                 [\<lparr>title = ''Cart is empty'', description = NoDetail, variant = Destructive\<rparr>]\<rparr>)"
  using assms by (simp add: saveBill_def notify_def)


theorem saveBill_empty_cart_witness:
  "cart (tea_session\<lparr>cart := []\<rparr>) = [] \<and>
   fst (saveBill True empty_world (tea_session\<lparr>cart := []\<rparr>)) = EmptyCart \<and>
   fst (snd (saveBill True empty_world (tea_session\<lparr>cart := []\<rparr>))) = empty_world \<and>
   map title (toasts (snd (snd (saveBill True empty_world (tea_session\<lparr>cart := []\<rparr>))))) =
     [''Cart is empty'']"
proof -
  have e: "cart (tea_session\<lparr>cart := []\<rparr>) = []" by simp
  from saveBill_empty_cart [OF e, of True empty_world] show ?thesis
    by (simp add: tea_session_def)
qed


lemma insert_bill_items_failed:
  assumes "insert_bill_items items w = (Inl e, w')"
  shows "w' = log_call (Call Insert BillItems None) w"
  using assms
  by (auto simp: insert_bill_items_def request_eq split: if_splits sum.splits)

lemma insert_bill_failed:
  assumes "insert_bill d w = (Inl e, w')"
  shows "w' = log_call (Call Insert Bills None) w"
  using assms
  by (auto simp: insert_bill_def request_eq Let_def split: if_splits option.splits)

lemma save_items_calls:
  "\<exists>rest. calls (fst (snd (save_items p b w s))) = calls w @ Call Insert BillItems None # rest \<and>
          set rest \<subseteq> read_calls b"
proof -
  obtain res w1 where ins: "insert_bill_items (items_of_cart b (cart s)) w = (res, w1)"
    by (cases "insert_bill_items (items_of_cart b (cart s)) w")
  show ?thesis
  proof (cases res)
    case (Inl e)
    with ins have w1: "w1 = log_call (Call Insert BillItems None) w"
      using insert_bill_items_failed by blast
    have "fst (snd (save_items p b w s)) = w1"
      using ins Inl by (simp add: save_items_def Let_def split_def)
    then have "calls (fst (snd (save_items p b w s))) = calls w @ Call Insert BillItems None # []"
      unfolding w1 by simp
    moreover have "set [] \<subseteq> read_calls b" by simp
    ultimately show ?thesis by blast
  next
    case (Inr u)
    with ins obtain items' where
      w1: "w1 = add_items items' (log_call (Call Insert BillItems None) w)"
      using insert_bill_items_ok by blast
    have c1: "calls w1 = calls w @ [Call Insert BillItems None]"
      unfolding w1 by (simp add: add_items_tables)
    let ?s1 = "notify \<lparr>title = (if p then ''Bill saved & printed!'' else ''Bill saved!''),
                        description = Text ''Successfully saved.'', variant = Default\<rparr> s"
    let ?w2 = "if p then printBill b (settings ?s1) w1 else w1"
    let ?s2 = "clearCart ?s1"
    let ?f3 = "fetchSavedBills ?w2 ?s2"
    let ?f4 = "fetchTodayRevenue (fst ?f3) (snd ?f3)"
    have eq: "save_items p b w s = (BillSaved b, fst ?f4, snd ?f4)"
      using ins Inr by (simp add: save_items_def Let_def split_def)
    let ?pr = "if p then [Call Select Bills (Some b), Call Select BillItems (Some b)] else []"
    have c2: "calls ?w2 = calls w1 @ ?pr"
      by (simp add: printBill_tables)
    have c4: "calls (fst ?f4) = calls ?w2 @ [Call Select Bills None, Call Select Bills None]"
      by (simp add: fetchTodayRevenue_world fetchSavedBills_world)
    let ?rest = "?pr @ [Call Select Bills None, Call Select Bills None]"
    have "calls (fst (snd (save_items p b w s))) = calls w @ Call Insert BillItems None # ?rest"
      unfolding eq by (simp add: c4 c2 c1)
    moreover have "set ?rest \<subseteq> read_calls b"
      by (auto simp: read_calls_def)
    ultimately show ?thesis by blast
  qed
qed

lemma saveBill_creates:
  assumes "currentBillId s = None" "cart s \<noteq> []"
  shows "\<exists>rest. calls (fst (snd (saveBill q w s))) = calls w @ Call Insert Bills None # rest \<and>
           (\<forall>i. Call Update Bills i \<notin> set rest)"
proof -
  obtain res w1 where ins: "insert_bill (billData q s) w = (res, w1)"
    by (cases "insert_bill (billData q s) w")
  show ?thesis
  proof (cases res)
    case (Inl e)
    with ins have w1: "w1 = log_call (Call Insert Bills None) w"
      using insert_bill_failed by blast
    have "fst (snd (saveBill q w s)) = w1"
      using ins Inl assms by (simp add: saveBill_def)
    then have "calls (fst (snd (saveBill q w s))) = calls w @ Call Insert Bills None # []"
      unfolding w1 by simp
    moreover have "\<forall>i. Call Update Bills i \<notin> set []" by simp
    ultimately show ?thesis by blast
  next
    case (Inr row)
    with ins have c1: "calls w1 = calls w @ [Call Insert Bills None]"
      using insert_bill_ok(6) by blast
    from ins Inr assms
    have eq: "saveBill q w s = save_items q (b_id row) w1 s"
      by (simp add: saveBill_def)
    from save_items_calls [of q "b_id row" w1 s] obtain rest where
      rest: "calls (fst (snd (save_items q (b_id row) w1 s))) =
               calls w1 @ Call Insert BillItems None # rest"
      "set rest \<subseteq> read_calls (b_id row)"
      by blast
    let ?rest = "Call Insert BillItems None # rest"
    have "calls (fst (snd (saveBill q w s))) = calls w @ Call Insert Bills None # ?rest"
      unfolding eq rest(1) c1 by simp
    moreover have "\<forall>i. Call Update Bills i \<notin> set ?rest"
      using rest(2) by (auto simp: read_calls_def)
    ultimately show ?thesis by blast
  qed
qed

text \<open>
  Claim C10.  After a \<open>saveBill\<close> that saved the bill, whether it created or updated
  it, the session is back in the composing state: the cart is empty, the discount is 0,
  the payment method is unset and no bill id is bound.  So the next save of a non-empty
  cart, in whatever world and with whatever else in the session, starts with an insert
  into \<open>bills\<close> and sends no update of a bill.
\<close>

theorem saveBill_resets_session:
  assumes "saveBill printAfter w s = (BillSaved bid, w', s')"
  shows "cart s' = [] \<and> discount s' = 0 \<and> paymentMethod s' = '''' \<and> currentBillId s' = None \<and>
         (\<forall>q w2 s2. currentBillId s2 = currentBillId s' \<and> cart s2 \<noteq> [] \<longrightarrow>
            (\<exists>rest. calls (fst (snd (saveBill q w2 s2))) =
                      calls w2 @ Call Insert Bills None # rest \<and>
                    (\<forall>i. Call Update Bills i \<notin> set rest)))"
proof -
  from assms have s': "cart s' = [] \<and> discount s' = 0 \<and> paymentMethod s' = '''' \<and>
      currentBillId s' = None"
  proof (cases rule: saveBill_saved_cases)
    case (created row w1)
    from save_items_saved [OF created(5)] show ?thesis by simp
  next
    case (updated u w1)
    from save_items_saved [OF updated(4)] show ?thesis by simp
  qed
  then have none: "currentBillId s' = None" by simp
  have "\<forall>q w2 s2. currentBillId s2 = currentBillId s' \<and> cart s2 \<noteq> [] \<longrightarrow>
            (\<exists>rest. calls (fst (snd (saveBill q w2 s2))) =
                      calls w2 @ Call Insert Bills None # rest \<and>
                    (\<forall>i. Call Update Bills i \<notin> set rest))"
    unfolding none using saveBill_creates by blast
  with s' show ?thesis by simp
qed


theorem saveBill_resets_session_witness:
  "fst (saveBill False empty_world tea_session) = BillSaved 1 \<and>
   cart (snd (snd (saveBill False empty_world tea_session))) = [] \<and>
   discount (snd (snd (saveBill False empty_world tea_session))) = 0 \<and>
   paymentMethod (snd (snd (saveBill False empty_world tea_session))) = [] \<and>
   currentBillId (snd (snd (saveBill False empty_world tea_session))) = None \<and>
   (\<exists>rest.
      calls (fst (snd (saveBill False (fst (snd (saveBill False empty_world tea_session)))
                        ((snd (snd (saveBill False empty_world tea_session)))
                           \<lparr>cart := cart tea_session\<rparr>)))) =
      calls (fst (snd (saveBill False empty_world tea_session))) @ Call Insert Bills None # rest)"
proof -
  let ?r = "saveBill False empty_world tea_session"
  let ?s2 = "(snd (snd ?r))\<lparr>cart := cart tea_session\<rparr>"
  have out: "fst ?r = BillSaved 1" by code_simp
  then have eq: "?r = (BillSaved 1, fst (snd ?r), snd (snd ?r))"
    by (metis prod.collapse)
  have s2: "currentBillId ?s2 = currentBillId (snd (snd ?r)) \<and> cart ?s2 \<noteq> []"
    by (simp add: tea_session_def)
  from saveBill_resets_session [OF eq]
  have reset: "cart (snd (snd ?r)) = []" "discount (snd (snd ?r)) = 0"
    "paymentMethod (snd (snd ?r)) = []" "currentBillId (snd (snd ?r)) = None"
    and nxt: "\<forall>q w2 s2. currentBillId s2 = currentBillId (snd (snd ?r)) \<and> cart s2 \<noteq> [] \<longrightarrow>
            (\<exists>rest. calls (fst (snd (saveBill q w2 s2))) =
                      calls w2 @ Call Insert Bills None # rest \<and>
                    (\<forall>i. Call Update Bills i \<notin> set rest))"
    by blast+
  from nxt s2 obtain rest where
    "calls (fst (snd (saveBill False (fst (snd ?r)) ?s2))) =
       calls (fst (snd ?r)) @ Call Insert Bills None # rest"
    by blast
  then have "\<exists>rest. calls (fst (snd (saveBill False (fst (snd ?r)) ?s2))) =
       calls (fst (snd ?r)) @ Call Insert Bills None # rest"
    by blast
  with out reset show ?thesis by simp
qed


section \<open>Deleting a bill\<close>

lemma delete_bill_cases:
  "delete_bill i w =
     (if faults w (length (calls w))
      then (Inl NetworkError, log_call (Call Delete Bills (Some i)) w)
      else (Inr (),
            (log_call (Call Delete Bills (Some i)) w)
              \<lparr>bills := filter (\<lambda>r. b_id r \<noteq> i) (bills w),
               bill_items := filter (\<lambda>r. bill_id r \<noteq> i) (bill_items w)\<rparr>))"
  by (simp add: delete_bill_def request_eq)

lemma fetchBills_world: "fst (fetchBills w p) = log_call (Call Select Bills None) w"
  using select_bills_world [of "\<lambda>b. status b \<noteq> Draft" w]
  by (simp add: fetchBills_def split_def Let_def split: option.splits)

lemma deleteBill_calls:
  assumes "billToDelete p = Some b"
  shows "\<exists>rest. calls (fst (snd (deleteBill w p))) =
           calls w @ Call Delete BillItems (Some (b_id b)) # Call Delete Bills (Some (b_id b)) # rest"
proof -
  let ?w1 = "snd (delete_bill_items (b_id b) w)"
  have c1: "calls ?w1 = calls w @ [Call Delete BillItems (Some (b_id b))]"
    by (simp add: delete_bill_items_world)
  obtain res w2 where del: "delete_bill (b_id b) ?w1 = (res, w2)"
    by (cases "delete_bill (b_id b) ?w1")
  then have c2: "calls w2 = calls ?w1 @ [Call Delete Bills (Some (b_id b))]"
    by (auto simp: delete_bill_cases split: if_splits)
  show ?thesis
  proof (cases res)
    case (Inl e)
    have "fst (snd (deleteBill w p)) = w2"
      using assms del Inl by (simp add: deleteBill_def split_def Let_def)
    then have "calls (fst (snd (deleteBill w p))) =
           calls w @ Call Delete BillItems (Some (b_id b)) # Call Delete Bills (Some (b_id b)) # []"
      by (simp add: c2 c1)
    then show ?thesis by blast
  next
    case (Inr u)
    have "\<exists>p0. fst (snd (deleteBill w p)) = fst (fetchBills w2 p0)"
      using assms del Inr by (auto simp: deleteBill_def split_def Let_def)
    then have "fst (snd (deleteBill w p)) = log_call (Call Select Bills None) w2"
      by (auto simp: fetchBills_world)
    then have "calls (fst (snd (deleteBill w p))) =
           calls w @ Call Delete BillItems (Some (b_id b)) # Call Delete Bills (Some (b_id b)) #
             [Call Select Bills None]"
      by (simp add: c2 c1)
    then show ?thesis by blast
  qed
qed

lemma deleteBill_deleted:
  assumes "billToDelete p = Some b" "fst (deleteBill w p) = BillDeleted"
  shows "b_id b \<notin> b_id ` set (bills (fst (snd (deleteBill w p)))) \<and>
         b_id b \<notin> bill_id ` set (bill_items (fst (snd (deleteBill w p))))"
proof -
  let ?w1 = "snd (delete_bill_items (b_id b) w)"
  obtain res w2 where del: "delete_bill (b_id b) ?w1 = (res, w2)"
    by (cases "delete_bill (b_id b) ?w1")
  show ?thesis
  proof (cases res)
    case (Inl e)
    have "fst (deleteBill w p) = DeleteFailed e"
      using assms(1) del Inl by (simp add: deleteBill_def split_def Let_def)
    with assms(2) show ?thesis by simp
  next
    case (Inr u)
    from del Inr have w2: "bills w2 = filter (\<lambda>r. b_id r \<noteq> b_id b) (bills ?w1)"
      "bill_items w2 = filter (\<lambda>r. bill_id r \<noteq> b_id b) (bill_items ?w1)"
      by (auto simp: delete_bill_cases split: if_splits)
    have "\<exists>p0. fst (snd (deleteBill w p)) = fst (fetchBills w2 p0)"
      using assms(1) del Inr by (auto simp: deleteBill_def split_def Let_def)
    then have "fst (snd (deleteBill w p)) = log_call (Call Select Bills None) w2"
      by (auto simp: fetchBills_world)
    then have "bills (fst (snd (deleteBill w p))) = bills w2"
      "bill_items (fst (snd (deleteBill w p))) = bill_items w2"
      by simp_all
    then show ?thesis unfolding w2 by auto
  qed
qed

lemma loadBill_no_bill:
  assumes "i \<notin> b_id ` set (bills w)" "i \<notin> bill_id ` set (bill_items w)"
  shows "fst (select_bill i w) = None \<and>
         currentBillId (snd (loadBill i w s)) = currentBillId s \<and>
         discount (snd (loadBill i w s)) = discount s \<and>
         paymentMethod (snd (loadBill i w s)) = paymentMethod s \<and>
         (cart (snd (loadBill i w s)) = [] \<or> cart (snd (loadBill i w s)) = cart s)"
proof -
  from assms(1) have nb: "filter (\<lambda>r. b_id r = i) (bills w) = []"
    by (auto simp: filter_empty_conv)
  from assms(2) have ni: "filter (\<lambda>r. bill_id r = i) (bill_items w) = []"
    by (auto simp: filter_empty_conv)
  have sb: "\<And>w' :: world. bills w' = bills w \<Longrightarrow> fst (select_bill i w') = None"
    using nb by (simp add: select_bill_def request_eq)
  have "fst (select_bill i w) = None" by (rule sb) simp
  moreover have "currentBillId (snd (loadBill i w s)) = currentBillId s \<and>
         discount (snd (loadBill i w s)) = discount s \<and>
         paymentMethod (snd (loadBill i w s)) = paymentMethod s \<and>
         (cart (snd (loadBill i w s)) = [] \<or> cart (snd (loadBill i w s)) = cart s)"
  proof (cases "faults w (length (calls w))")
    case True
    then show ?thesis
      by (simp add: loadBill_def select_bill_items_def request_eq)
  next
    case False
    let ?w1 = "log_call (Call Select BillItems (Some i)) w"
    have si: "select_bill_items i w = (Some [], ?w1)"
      using False ni by (simp add: select_bill_items_def request_eq)
    have sb1: "fst (select_bill i ?w1) = None" by (rule sb) simp
    show ?thesis
      using si sb1 by (simp add: loadBill_def split_def Let_def)
  qed
  ultimately show ?thesis by simp
qed

text \<open>
  Claim C8.  \<open>deleteBill\<close> on a selected bill sends the deletion of the bill's items and
  then the deletion of the bill row, in that order.  When the deletion succeeded, the
  store holds no row of \<open>bills\<close> with that id and no row of \<open>bill_items\<close> that refers
  to it; a load by that id then finds no bill, binds no bill id and brings no cart line
  back.
\<close>

theorem deleteBill_removes:
  assumes "billToDelete p = Some b"
  shows "(\<exists>rest. calls (fst (snd (deleteBill w p))) =
            calls w @ Call Delete BillItems (Some (b_id b)) #
                      Call Delete Bills (Some (b_id b)) # rest) \<and>
         (fst (deleteBill w p) = BillDeleted \<longrightarrow>
            b_id b \<notin> b_id ` set (bills (fst (snd (deleteBill w p)))) \<and>
            b_id b \<notin> bill_id ` set (bill_items (fst (snd (deleteBill w p)))) \<and>
            (\<forall>s. fst (select_bill (b_id b) (fst (snd (deleteBill w p)))) = None \<and>
                 currentBillId (snd (loadBill (b_id b) (fst (snd (deleteBill w p))) s)) =
                   currentBillId s \<and>
                 (cart (snd (loadBill (b_id b) (fst (snd (deleteBill w p))) s)) = [] \<or>
                  cart (snd (loadBill (b_id b) (fst (snd (deleteBill w p))) s)) = cart s)))"
proof -
  have calls: "\<exists>rest. calls (fst (snd (deleteBill w p))) =
            calls w @ Call Delete BillItems (Some (b_id b)) #
                      Call Delete Bills (Some (b_id b)) # rest"
    using assms by (rule deleteBill_calls)
  have "fst (deleteBill w p) = BillDeleted \<longrightarrow>
            b_id b \<notin> b_id ` set (bills (fst (snd (deleteBill w p)))) \<and>
            b_id b \<notin> bill_id ` set (bill_items (fst (snd (deleteBill w p)))) \<and>
            (\<forall>s. fst (select_bill (b_id b) (fst (snd (deleteBill w p)))) = None \<and>
                 currentBillId (snd (loadBill (b_id b) (fst (snd (deleteBill w p))) s)) =
                   currentBillId s \<and>
                 (cart (snd (loadBill (b_id b) (fst (snd (deleteBill w p))) s)) = [] \<or>
                  cart (snd (loadBill (b_id b) (fst (snd (deleteBill w p))) s)) = cart s))"
  proof
    assume ok: "fst (deleteBill w p) = BillDeleted"
    let ?w' = "fst (snd (deleteBill w p))"
    from deleteBill_deleted [OF assms ok]
    have gone: "b_id b \<notin> b_id ` set (bills ?w')" "b_id b \<notin> bill_id ` set (bill_items ?w')"
      by simp_all
    have "\<forall>s. fst (select_bill (b_id b) ?w') = None \<and>
                 currentBillId (snd (loadBill (b_id b) ?w' s)) = currentBillId s \<and>
                 (cart (snd (loadBill (b_id b) ?w' s)) = [] \<or>
                  cart (snd (loadBill (b_id b) ?w' s)) = cart s)"
      using loadBill_no_bill [OF gone] by blast
    with gone show "b_id b \<notin> b_id ` set (bills ?w') \<and>
            b_id b \<notin> bill_id ` set (bill_items ?w') \<and>
            (\<forall>s. fst (select_bill (b_id b) ?w') = None \<and>
                 currentBillId (snd (loadBill (b_id b) ?w' s)) = currentBillId s \<and>
                 (cart (snd (loadBill (b_id b) ?w' s)) = [] \<or>
                  cart (snd (loadBill (b_id b) ?w' s)) = cart s))"
      by simp
  qed
  with calls show ?thesis by simp
qed

theorem deleteBill_removes_witness:
  "billToDelete delete_page = Some tea_bill \<and>
   fst (deleteBill tea_world delete_page) = BillDeleted \<and>
   bills (fst (snd (deleteBill tea_world delete_page))) = [] \<and>
   bill_items (fst (snd (deleteBill tea_world delete_page))) = [] \<and>
   take 2 (calls (fst (snd (deleteBill tea_world delete_page)))) =
     [Call Delete BillItems (Some 1), Call Delete Bills (Some 1)] \<and>
   fst (select_bill 1 (fst (snd (deleteBill tea_world delete_page)))) = None \<and>
   currentBillId (snd (loadBill 1 (fst (snd (deleteBill tea_world delete_page))) tea_session)) = None"
proof -
  let ?r = "deleteBill tea_world delete_page"
  have sel: "billToDelete delete_page = Some tea_bill" by (simp add: delete_page_def)
  have ok: "fst ?r = BillDeleted" by code_simp
  have tabs: "bills (fst (snd ?r)) = []" "bill_items (fst (snd ?r)) = []" by code_simp+
  have c0: "calls tea_world = []" by (simp add: tea_world_def empty_world_def)
  have id1: "b_id tea_bill = 1" by (simp add: tea_bill_def)
  have cur: "currentBillId tea_session = None" by (simp add: tea_session_def)
  from deleteBill_removes [OF sel, of tea_world] ok
  have "\<exists>rest. calls (fst (snd ?r)) =
            calls tea_world @ Call Delete BillItems (Some (b_id tea_bill)) #
                      Call Delete Bills (Some (b_id tea_bill)) # rest"
    and "fst (select_bill (b_id tea_bill) (fst (snd ?r))) = None"
    and "currentBillId (snd (loadBill (b_id tea_bill) (fst (snd ?r)) tea_session)) =
           currentBillId tea_session"
    by blast+
  with sel ok tabs c0 id1 cur show ?thesis by auto
qed


section \<open>Revenue aggregation\<close>





lemma fetchRevenueData_one_bill:
  "avgBillValue (snd (fetchRevenueData tea_world (empty_reports\<lparr>startDate := 0\<rparr>))) = Finite 200 \<and>
   totalBills (snd (fetchRevenueData tea_world (empty_reports\<lparr>startDate := 0\<rparr>))) = 1"
  by code_simp


section \<open>Saving and loading again\<close>

lemma filter_unique:
  "distinct (map f xs) \<Longrightarrow> x \<in> set xs \<Longrightarrow> filter (\<lambda>r. f r = f x) xs = [x]"
proof (induction xs)
  case Nil
  then show ?case by simp
next
  case (Cons a xs)
  show ?case
  proof (cases "a = x")
    case True
    from Cons.prems(1) have "\<forall>r\<in>set xs. f r \<noteq> f a" by (auto simp: image_iff)
    then have "filter (\<lambda>r. f r = f a) xs = []" by (simp add: filter_empty_conv)
    with True show ?thesis by simp
  next
    case False
    with Cons.prems(2) have x: "x \<in> set xs" by simp
    with Cons.prems(1) have "f a \<noteq> f x" by (auto simp: image_iff)
    moreover from Cons.prems(1) have "distinct (map f xs)" by simp
    ultimately show ?thesis using Cons.IH x by simp
  qed
qed

lemma filter_none: "i \<notin> f ` set xs \<Longrightarrow> filter (\<lambda>r. f r = i) xs = []"
  by (auto simp: filter_empty_conv)

lemma filter_all: "\<forall>r\<in>set xs. f r = i \<Longrightarrow> filter (\<lambda>r. f r = i) xs = xs"
  by (induction xs) simp_all

lemma loadBill_found:
  assumes "\<forall>n. \<not> faults w n" "filter (\<lambda>r. b_id r = i) (bills w) = [row]"
  shows "snd (loadBill i w s) =
           s\<lparr>cart := map line_of_row (filter (\<lambda>r. bill_id r = i) (bill_items w)),
             discount := b_discount row,
             paymentMethod := (case payment_method row of None \<Rightarrow> [] | Some m \<Rightarrow> m),
             currentBillId := Some i\<rparr>"
proof -
  let ?w1 = "log_call (Call Select BillItems (Some i)) w"
  have si: "select_bill_items i w = (Some (filter (\<lambda>r. bill_id r = i) (bill_items w)), ?w1)"
    using assms(1) by (simp add: select_bill_items_def request_eq)
  have sb: "select_bill i ?w1 = (Some row, log_call (Call Select Bills (Some i)) ?w1)"
    using assms by (simp add: select_bill_def request_eq)
  show ?thesis
    by (simp add: loadBill_def si sb)
qed

lemma check_items_rows:
  assumes "check_items W (items_of_cart b crt) = Inr items'"
    and "list_all (\<lambda>c. two_decimal_amount (c_price c)) crt"
  shows "map bill_id items' = map (\<lambda>c. b) crt \<and>
         map item_name_snapshot items' = map c_name crt \<and>
         map price_snapshot items' = map c_price crt \<and>
         map quantity items' = map c_quantity crt"
  using assms
proof (induction crt arbitrary: items')
  case Nil
  then show ?case by (simp add: items_of_cart_def)
next
  case (Cons c crt)
  let ?d = "\<lparr>bill_id = b, item_name_snapshot = c_name c, price_snapshot = c_price c,
             quantity = c_quantity c,
             line_total = json_number (num_mul (c_price c) (of_int (c_quantity c)))\<rparr>"
  have ioc: "items_of_cart b (c # crt) = ?d # items_of_cart b crt"
    by (simp add: items_of_cart_def)
  from Cons.prems(1) obtain d' ds' where
    d': "check_item W ?d = Inr d'" and ds': "check_items W (items_of_cart b crt) = Inr ds'"
    and items': "items' = d' # ds'"
    unfolding ioc by (auto split: sum.splits)
  from Cons.prems(2) have amt: "decimal_10_2 (c_price c) = Some (c_price c)"
    and rest: "list_all (\<lambda>c. two_decimal_amount (c_price c)) crt"
    by (simp_all add: two_decimal_amount_def)
  from check_item_ok [OF d'] amt
  have hd: "bill_id d' = b" "item_name_snapshot d' = c_name c" "price_snapshot d' = c_price c"
    "quantity d' = c_quantity c"
    by simp_all
  from Cons.IH [OF ds' rest] hd show ?case unfolding items' by simp
qed

lemma map_item_data_fields:
  assumes "map item_data rows = items'"
  shows "map bill_id rows = map bill_id items'"
    and "map item_name_snapshot rows = map item_name_snapshot items'"
    and "map price_snapshot rows = map price_snapshot items'"
    and "map quantity rows = map quantity items'"
proof -
  have "\<And>r. bill_id (item_data r) = bill_id r \<and>
          item_name_snapshot (item_data r) = item_name_snapshot r \<and>
          price_snapshot (item_data r) = price_snapshot r \<and> quantity (item_data r) = quantity r"
    by (simp add: item_data_def)
  then have "map bill_id (map item_data rows) = map bill_id rows"
    "map item_name_snapshot (map item_data rows) = map item_name_snapshot rows"
    "map price_snapshot (map item_data rows) = map price_snapshot rows"
    "map quantity (map item_data rows) = map quantity rows"
    by simp_all
  with assms show "map bill_id rows = map bill_id items'"
    and "map item_name_snapshot rows = map item_name_snapshot items'"
    and "map price_snapshot rows = map price_snapshot items'"
    and "map quantity rows = map quantity items'"
    by simp_all
qed

lemma map_line_of_row:
  "map c_name (map line_of_row rows) = map item_name_snapshot rows"
  "map c_price (map line_of_row rows) = map price_snapshot rows"
  "map c_quantity (map line_of_row rows) = map quantity rows"
  "list_all (\<lambda>c. c_category c = ''Uncategorized'') (map line_of_row rows)"
  by (simp_all add: line_of_row_def list_all_iff)

lemma save_items_rows:
  assumes saved: "save_items p b w0 s = (BillSaved bid, w1, s1)"
    and amounts: "list_all (\<lambda>c. two_decimal_amount (c_price c)) (cart s)"
    and fresh: "b \<notin> bill_id ` set (bill_items w0)"
  shows "bills w1 = bills w0 \<and> faults w1 = faults w0 \<and>
         map item_name_snapshot (filter (\<lambda>r. bill_id r = b) (bill_items w1)) = map c_name (cart s) \<and>
         map price_snapshot (filter (\<lambda>r. bill_id r = b) (bill_items w1)) = map c_price (cart s) \<and>
         map quantity (filter (\<lambda>r. bill_id r = b) (bill_items w1)) = map c_quantity (cart s)"
proof -
  let ?W = "log_call (Call Insert BillItems None) w0"
  from save_items_saved [OF saved] obtain items' where
    chk: "check_items ?W (items_of_cart b (cart s)) = Inr items'"
    and items: "bill_items w1 = bill_items w0 @ new_rows items' ?W"
    and same: "bills w1 = bills w0" "faults w1 = faults w0"
    by blast
  let ?rows = "new_rows items' ?W"
  have data: "map item_data ?rows = items'" by (rule new_rows_data)
  note fields = map_item_data_fields [OF data]
  from check_items_rows [OF chk amounts]
  have it: "map bill_id items' = map (\<lambda>c. b) (cart s)"
    "map item_name_snapshot items' = map c_name (cart s)"
    "map price_snapshot items' = map c_price (cart s)"
    "map quantity items' = map c_quantity (cart s)"
    by simp_all
  have "set (map bill_id ?rows) \<subseteq> {b}"
    unfolding fields(1) it(1) by auto
  then have "\<forall>r\<in>set ?rows. bill_id r = b" by auto
  then have new: "filter (\<lambda>r. bill_id r = b) ?rows = ?rows" by (rule filter_all)
  from fresh have old: "filter (\<lambda>r. bill_id r = b) (bill_items w0) = []" by (rule filter_none)
  have flt: "filter (\<lambda>r. bill_id r = b) (bill_items w1) = ?rows"
    unfolding items by (simp add: old new)
  show ?thesis
    unfolding flt using same fields it by simp
qed

lemma two_decimal_discount:
  assumes "two_decimal_amount (discount s)"
    and "coerce_bill_data (billData p s) = Some d'"
  shows "b_discount d' = discount s \<and>
         payment_method d' = (if paymentMethod s = [] then None else Some (paymentMethod s))"
proof -
  from coerce_bill_data_fields [OF assms(2)]
  have pm: "payment_method d' = payment_method (billData p s)"
    and dc: "decimal_10_2 (b_discount (billData p s)) = Some (b_discount d')"
    by simp_all
  from dc assms(1) have "b_discount d' = discount s"
    by (simp add: billData_fields two_decimal_amount_def)
  with pm show ?thesis by (simp add: billData_fields)
qed

lemma saved_tables:
  assumes pk: "distinct (map b_id (bills w))"
    and net: "\<forall>n. \<not> faults w n"
    and disc: "two_decimal_amount (discount s)"
    and amounts: "list_all (\<lambda>c. two_decimal_amount (c_price c)) (cart s)"
    and saved: "saveBill p w s = (BillSaved bid, w1, s1)"
  shows "\<exists>row. filter (\<lambda>r. b_id r = bid) (bills w1) = [row] \<and>
           b_discount row = discount s \<and>
           payment_method row = (if paymentMethod s = [] then None else Some (paymentMethod s))"
    and "faults w1 = faults w"
    and "map item_name_snapshot (filter (\<lambda>r. bill_id r = bid) (bill_items w1)) = map c_name (cart s)"
    and "map price_snapshot (filter (\<lambda>r. bill_id r = bid) (bill_items w1)) = map c_price (cart s)"
    and "map quantity (filter (\<lambda>r. bill_id r = bid) (bill_items w1)) = map c_quantity (cart s)"
proof -
  have "(\<exists>row. filter (\<lambda>r. b_id r = bid) (bills w1) = [row] \<and>
           b_discount row = discount s \<and>
           payment_method row = (if paymentMethod s = [] then None else Some (paymentMethod s))) \<and>
     faults w1 = faults w \<and>
     map item_name_snapshot (filter (\<lambda>r. bill_id r = bid) (bill_items w1)) = map c_name (cart s) \<and>
     map price_snapshot (filter (\<lambda>r. bill_id r = bid) (bill_items w1)) = map c_price (cart s) \<and>
     map quantity (filter (\<lambda>r. bill_id r = bid) (bill_items w1)) = map c_quantity (cart s)"
    using saved
  proof (cases rule: saveBill_saved_cases)
    case (created row wi)
    from insert_bill_ok [OF created(3)] obtain d' where
      d': "coerce_bill_data (billData p s) = Some d'"
      and rd: "b_discount row = b_discount d'" "payment_method row = payment_method d'"
      and rid: "b_id row = gen_random_uuid w"
      and bwi: "bills wi = bills w @ [row]"
      and iwi: "bill_items wi = bill_items w"
      and fwi: "faults wi = faults w"
      by blast
    have bidg: "bid = gen_random_uuid w" using created(4) rid by (rule trans)
    have fresh: "bid \<notin> bill_id ` set (bill_items wi)"
      unfolding iwi bidg by (rule gen_random_uuid_fresh(2))
    note rows = save_items_rows [OF created(5) amounts fresh]
    have old: "filter (\<lambda>r. b_id r = bid) (bills w) = []"
      unfolding bidg by (rule filter_none) (rule gen_random_uuid_fresh(1))
    have "filter (\<lambda>r. b_id r = bid) (bills w1) = [row]"
      using rows old created(4) by (simp add: bwi)
    moreover from two_decimal_discount [OF disc d'] rd
    have "b_discount row = discount s \<and>
          payment_method row = (if paymentMethod s = [] then None else Some (paymentMethod s))"
      by simp
    ultimately show ?thesis using rows fwi by simp
  next
    case (updated u wu)
    from update_bill_ok [OF updated(3)] obtain d' where
      d': "coerce_bill_data (billData p s) = Some d'"
      and bwu: "bills wu = map (write_bill d' bid) (bills w)"
      and iwu: "bill_items wu = bill_items w"
      and fwu: "faults wu = faults w"
      by blast
    let ?w0 = "snd (delete_bill_items bid wu)"
    from net fwu have deliv: "\<not> faults wu (length (calls wu))" by simp
    have w0: "bills ?w0 = bills wu" "faults ?w0 = faults wu"
      "bill_items ?w0 = filter (\<lambda>r. bill_id r \<noteq> bid) (bill_items wu)"
      using deliv by (simp_all add: delete_bill_items_world)
    have fresh: "bid \<notin> bill_id ` set (bill_items ?w0)"
      unfolding w0(3) by auto
    note rows = save_items_rows [OF updated(4) amounts fresh]
    from save_items_saved [OF updated(4)] obtain items' where
      chk: "check_items (log_call (Call Insert BillItems None) ?w0)
              (items_of_cart bid (cart s)) = Inr items'"
      by blast
    from updated(1) obtain d where d: "d \<in> set (items_of_cart bid (cart s))"
      by (cases "cart s") (auto simp: items_of_cart_def)
    from check_items_nonempty_bill [OF chk d] items_of_cart_bill_id [OF d]
    have "bid \<in> b_id ` set (bills wu)" by (simp add: w0(1))
    moreover have "map b_id (bills wu) = map b_id (bills w)"
      unfolding bwu by (rule map_b_id_write_bill)
    then have "b_id ` set (bills wu) = b_id ` set (bills w)"
      by (simp only: set_map [symmetric])
    ultimately have "bid \<in> b_id ` set (bills w)" by simp
    then obtain r0 where r0: "r0 \<in> set (bills w)" "b_id r0 = bid" by auto
    from filter_unique [OF pk r0(1)] r0(2)
    have one: "filter (\<lambda>r. b_id r = bid) (bills w) = [r0]" by simp
    have "filter (\<lambda>r. b_id r = bid) (bills wu) =
            map (write_bill d' bid) (filter (\<lambda>r. b_id r = bid) (bills w))"
      unfolding bwu by (simp add: filter_map comp_def write_bill_id)
    then have flt: "filter (\<lambda>r. b_id r = bid) (bills w1) = [write_bill d' bid r0]"
      using rows w0(1) one by simp
    from write_bill_hit [OF r0(2), of d'] two_decimal_discount [OF disc d']
    have "b_discount (write_bill d' bid r0) = discount s \<and>
          payment_method (write_bill d' bid r0) =
            (if paymentMethod s = [] then None else Some (paymentMethod s))"
      by simp
    with flt rows w0(2) fwu show ?thesis by simp
  qed
  then show "\<exists>row. filter (\<lambda>r. b_id r = bid) (bills w1) = [row] \<and>
           b_discount row = discount s \<and>
           payment_method row = (if paymentMethod s = [] then None else Some (paymentMethod s))"
    and "faults w1 = faults w"
    and "map item_name_snapshot (filter (\<lambda>r. bill_id r = bid) (bill_items w1)) = map c_name (cart s)"
    and "map price_snapshot (filter (\<lambda>r. bill_id r = bid) (bill_items w1)) = map c_price (cart s)"
    and "map quantity (filter (\<lambda>r. bill_id r = bid) (bill_items w1)) = map c_quantity (cart s)"
    by blast+
qed

text \<open>
  Claim C4, as the code and the schema have it.  In a store whose bill ids are unique,
  when no request is lost, the discount and the unit prices are amounts of at most two
  decimals that the \<open>DECIMAL(10, 2)\<close> columns hold unchanged, and \<open>saveBill\<close> saved the
  (non-empty) cart, then \<open>loadBill\<close> of the saved bill's id puts back the same item
  names, unit prices, quantities, discount and payment method, and binds that id; every
  reloaded line has the category "Uncategorized".
\<close>

theorem save_load_roundtrip:
  assumes pk: "distinct (map b_id (bills w))"
    and net: "\<forall>n. \<not> faults w n"
    and disc: "two_decimal_amount (discount s)"
    and amounts: "list_all (\<lambda>c. two_decimal_amount (c_price c)) (cart s)"
    and saved: "saveBill printAfter w s = (BillSaved bid, w1, s1)"
  shows "cart s \<noteq> [] \<and>
         map c_name (cart (snd (loadBill bid w1 s1))) = map c_name (cart s) \<and>
         map c_price (cart (snd (loadBill bid w1 s1))) = map c_price (cart s) \<and>
         map c_quantity (cart (snd (loadBill bid w1 s1))) = map c_quantity (cart s) \<and>
         discount (snd (loadBill bid w1 s1)) = discount s \<and>
         paymentMethod (snd (loadBill bid w1 s1)) = paymentMethod s \<and>
         list_all (\<lambda>c. c_category c = ''Uncategorized'') (cart (snd (loadBill bid w1 s1))) \<and>
         currentBillId (snd (loadBill bid w1 s1)) = Some bid"
proof -
  note t = saved_tables [OF pk net disc amounts saved]
  from t(1) obtain row where
    row: "filter (\<lambda>r. b_id r = bid) (bills w1) = [row]" "b_discount row = discount s"
    "payment_method row = (if paymentMethod s = [] then None else Some (paymentMethod s))"
    by blast
  from net t(2) have net1: "\<forall>n. \<not> faults w1 n" by simp
  let ?rows = "filter (\<lambda>r. bill_id r = bid) (bill_items w1)"
  note ld = loadBill_found [OF net1 row(1), of s1]
  have c: "cart (snd (loadBill bid w1 s1)) = map line_of_row ?rows"
    and d: "discount (snd (loadBill bid w1 s1)) = b_discount row"
    and pm: "paymentMethod (snd (loadBill bid w1 s1)) =
              (case payment_method row of None \<Rightarrow> [] | Some m \<Rightarrow> m)"
    and cur: "currentBillId (snd (loadBill bid w1 s1)) = Some bid"
    unfolding ld by simp_all
  have pm': "paymentMethod (snd (loadBill bid w1 s1)) = paymentMethod s"
    unfolding pm row(3) by simp
  from saveBill_saved [OF saved] have ne: "cart s \<noteq> []" by (rule conjunct1)
  have n: "map c_name (map line_of_row ?rows) = map c_name (cart s)"
    unfolding map_line_of_row(1) by (rule t(3))
  have pr: "map c_price (map line_of_row ?rows) = map c_price (cart s)"
    unfolding map_line_of_row(2) by (rule t(4))
  have q: "map c_quantity (map line_of_row ?rows) = map c_quantity (cart s)"
    unfolding map_line_of_row(3) by (rule t(5))
  have cat: "list_all (\<lambda>c. c_category c = ''Uncategorized'') (map line_of_row ?rows)"
    by (rule map_line_of_row(4))
  from d row(2) have d': "discount (snd (loadBill bid w1 s1)) = discount s" by simp
  show ?thesis
    unfolding c using ne n pr q cat d' pm' cur by blast
qed


theorem save_load_roundtrip_witness:
  "distinct (map b_id (bills empty_world)) \<and>
   (\<forall>n. \<not> faults empty_world n) \<and>
   two_decimal_amount (discount tea_session) \<and>
   list_all (\<lambda>c. two_decimal_amount (c_price c)) (cart tea_session) \<and>
   fst (saveBill False empty_world tea_session) = BillSaved 1 \<and>
   map c_name (cart (snd (loadBill 1 (fst (snd (saveBill False empty_world tea_session)))
                            (snd (snd (saveBill False empty_world tea_session)))))) = [''Tea''] \<and>
   map c_price (cart (snd (loadBill 1 (fst (snd (saveBill False empty_world tea_session)))
                             (snd (snd (saveBill False empty_world tea_session)))))) = [100] \<and>
   map c_quantity (cart (snd (loadBill 1 (fst (snd (saveBill False empty_world tea_session)))
                                (snd (snd (saveBill False empty_world tea_session)))))) = [2] \<and>
   discount (snd (loadBill 1 (fst (snd (saveBill False empty_world tea_session)))
                   (snd (snd (saveBill False empty_world tea_session))))) = 10 \<and>
   paymentMethod (snd (loadBill 1 (fst (snd (saveBill False empty_world tea_session)))
                        (snd (snd (saveBill False empty_world tea_session))))) = ''cash'' \<and>
   currentBillId (snd (loadBill 1 (fst (snd (saveBill False empty_world tea_session)))
                        (snd (snd (saveBill False empty_world tea_session))))) = Some 1"
proof -
  let ?r = "saveBill False empty_world tea_session"
  have pk: "distinct (map b_id (bills empty_world))" by (simp add: empty_world_def)
  have net: "\<forall>n. \<not> faults empty_world n" by (simp add: empty_world_def)
  have disc: "two_decimal_amount (discount tea_session)" by code_simp
  have amounts: "list_all (\<lambda>c. two_decimal_amount (c_price c)) (cart tea_session)" by code_simp
  have out: "fst ?r = BillSaved 1" by code_simp
  then have eq: "?r = (BillSaved 1, fst (snd ?r), snd (snd ?r))"
    by (metis prod.collapse)
  have sess: "map c_name (cart tea_session) = [''Tea'']" "map c_price (cart tea_session) = [100]"
    "map c_quantity (cart tea_session) = [2]" "discount tea_session = 10"
    "paymentMethod tea_session = ''cash''"
    by (simp_all add: tea_session_def)
  from save_load_roundtrip [OF pk net disc amounts eq] sess pk net disc amounts out
  show ?thesis by simp
qed

text \<open>
  Claim C4 as stated fails in two ways.  A discount of 0.001 is saved without error and
  comes back as 0, because the \<open>discount\<close> column is \<open>DECIMAL(10, 2)\<close>.  And when a bill is
  edited and the request that deletes its old items is lost, \<open>saveBill\<close> does not look at
  the answer, reports success, and the load brings back the old lines with the new one.
\<close>

theorem save_load_roundtrip_counterexample:
  "fst (saveBill False empty_world (tea_session\<lparr>discount := 1 / 1000\<rparr>)) = BillSaved 1 \<and>
   discount (snd (loadBill 1
      (fst (snd (saveBill False empty_world (tea_session\<lparr>discount := 1 / 1000\<rparr>))))
      (snd (snd (saveBill False empty_world (tea_session\<lparr>discount := 1 / 1000\<rparr>)))))) = 0 \<and>
   fst (saveBill False flaky_world coffee_session) = BillSaved 1 \<and>
   map c_name (cart coffee_session) = [''Coffee''] \<and>
   map c_name (cart (snd (loadBill 1 (fst (snd (saveBill False flaky_world coffee_session)))
                            (snd (snd (saveBill False flaky_world coffee_session)))))) =
     [''Tea'', ''Coffee'']"
  by code_simp


end
